theory Spec2Isabelle
  imports Complex_Main "HOL-Library.AList" "HOL-Library.Multiset"
begin

section \<open>The vocabulary trainer: storage, scheduling, selection and grading\<close>

text \<open>
  A shallow embedding of the quiz core of the trainer: the storage queries of
  \<^verbatim>\<open>database.py\<close>, the question record of \<^verbatim>\<open>quiz.py\<close> and the answer step of the
  request handler \<^verbatim>\<open>quiz_question\<close> in \<^verbatim>\<open>app.py\<close>.

  Conventions of the embedding.
  \<^item> Python's unbounded \<^verbatim>\<open>int\<close> is \<^typ>\<open>int\<close>; row identifiers are \<^typ>\<open>int\<close>.
  \<^item> A point in time is an \<^typ>\<open>int\<close>, counted in microseconds (the resolution of
    \<^verbatim>\<open>datetime\<close>). Every function that reads a clock (\<^verbatim>\<open>datetime.now()\<close>,
    \<^verbatim>\<open>CURRENT_TIMESTAMP\<close>, \<^verbatim>\<open>datetime('now', ...)\<close>) takes that reading as its
    argument \<open>now\<close>.
  \<^item> Text is \<^typ>\<open>string\<close>; a character stands for the Unicode code point of its number,
    so text is made of the code points below 256.
  \<^item> A table is the list of its rows, in the order the engine scans them; the one table
    with a mutable row, \<^verbatim>\<open>user_progress\<close>, is a map from its primary key.
  \<^item> A Python \<^verbatim>\<open>dict\<close> is an association list with distinct keys, in insertion order.
  \<^item> The module \<^verbatim>\<open>random\<close> is a source of raw draws that is threaded through every
    function that uses it.
  \<^item> A raised exception is the left summand of the result.
\<close>

subsection \<open>Time\<close>

type_synonym timestamp = int

definition microseconds_per_day :: int where
  "microseconds_per_day = 86400000000"

text \<open>\<^verbatim>\<open>datetime.timedelta(days=n)\<close> for a whole number of days.\<close>

definition timedelta_days :: "nat \<Rightarrow> int" where
  "timedelta_days n = int n * microseconds_per_day"

subsection \<open>Tables\<close>

text \<open>
  A row of \<^verbatim>\<open>user_progress\<close>, without its key. The only statement that writes the table is
  in \<^verbatim>\<open>update_user_progress\<close>, which stores a box computed as \<^verbatim>\<open>1\<close>, \<^verbatim>\<open>0\<close> or
  \<^verbatim>\<open>min(box + 1, 5)\<close> and a due date that is never \<^verbatim>\<open>NULL\<close>; so the box is a natural
  number and the due date a timestamp.
\<close>

record progress =
  box :: nat
  due_date :: timestamp

record quiz_session_row =
  qs_id :: int
  qs_set_id :: int
  qs_session_time :: timestamp
  qs_total_questions :: int
  qs_correct_answers :: int
  qs_user_id :: "int option"

text \<open>
  A row of \<^verbatim>\<open>quiz_answers\<close>. The column \<^verbatim>\<open>correct\<close> is written by
  \<^verbatim>\<open>record_quiz_answer\<close> as \<^verbatim>\<open>1 if correct else 0\<close> from a Boolean, which is what the row
  keeps here; \<open>correct_value\<close> is the stored integer.
\<close>

record quiz_answer_row =
  qa_session_id :: int
  qa_group_id :: int
  qa_from_lang :: string
  qa_to_lang :: string
  qa_correct :: bool

definition correct_value :: "quiz_answer_row \<Rightarrow> int" where
  "correct_value a = (if qa_correct a then 1 else 0)"

text \<open>
  The database: \<^verbatim>\<open>languages\<close> as (id, name), \<^verbatim>\<open>vocab_items\<close> as
  (group_id, language_id, word), \<^verbatim>\<open>set_groups\<close> as (set_id, group_id), and
  \<^verbatim>\<open>user_progress\<close> keyed by (user_id, group_id); the fields carry the prefix \<open>t_\<close>.
\<close>

record database =
  t_languages :: "(int \<times> string) list"
  t_vocab_items :: "(int \<times> int \<times> string) list"
  t_set_groups :: "(int \<times> int) list"
  t_quiz_sessions :: "quiz_session_row list"
  t_quiz_answers :: "quiz_answer_row list"
  t_user_progress :: "int \<times> int \<Rightarrow> progress option"

subsection \<open>Progress tracking\<close>

text \<open>
  \<^verbatim>\<open>update_user_progress(user_id, group_id, correct)\<close>: the row is read; when it exists the
  box moves to \<^verbatim>\<open>min(box + 1, 5)\<close> or back to \<^verbatim>\<open>0\<close> and the row is updated, otherwise
  a row is inserted with box \<^verbatim>\<open>1 if correct else 0\<close>. In both branches
  \<^verbatim>\<open>due_date = now + timedelta(days=2 ** box)\<close>.
\<close>

definition update_user_progress ::
  "timestamp \<Rightarrow> database \<Rightarrow> int \<Rightarrow> int \<Rightarrow> bool \<Rightarrow> database" where
  "update_user_progress now db user_id group_id correct =
     (case t_user_progress db (user_id, group_id) of
        Some row \<Rightarrow>
          (let b = (if correct then min (box row + 1) 5 else 0);
               interval_days = 2 ^ b;
               due = now + timedelta_days interval_days
           in db\<lparr>t_user_progress :=
                (t_user_progress db)((user_id, group_id) \<mapsto> row\<lparr>box := b, due_date := due\<rparr>)\<rparr>)
      | None \<Rightarrow>
          (let b = (if correct then 1 else 0);
               interval_days = 2 ^ b;
               due = now + timedelta_days interval_days
           in db\<lparr>t_user_progress :=
                (t_user_progress db)((user_id, group_id) \<mapsto> \<lparr>box = b, due_date = due\<rparr>)\<rparr>))"

text \<open>
  A run of answers to one card by one user: each entry is the clock reading of the call and
  the correctness passed to it.
\<close>

fun answer_run :: "database \<Rightarrow> int \<Rightarrow> int \<Rightarrow> (timestamp \<times> bool) list \<Rightarrow> database" where
  "answer_run db user_id group_id [] = db"
| "answer_run db user_id group_id ((now, correct) # rest) =
     answer_run (update_user_progress now db user_id group_id correct) user_id group_id rest"

text \<open>\<^verbatim>\<open>fetch_set_group_ids(set_id)\<close>.\<close>

definition fetch_set_group_ids :: "database \<Rightarrow> int \<Rightarrow> int list" where
  "fetch_set_group_ids db set_id = [g. (s, g) \<leftarrow> t_set_groups db, s = set_id]"

text \<open>
  \<^verbatim>\<open>get_due_groups(set_id, user_id)\<close>: the left join of \<^verbatim>\<open>set_groups\<close> with the user's
  progress rows gives one row for each membership row (the key of \<^verbatim>\<open>user_progress\<close> is
  (user_id, group_id)), with a \<^verbatim>\<open>NULL\<close> due date when the user has no row for the group.
\<close>

definition get_due_groups :: "timestamp \<Rightarrow> database \<Rightarrow> int \<Rightarrow> int \<Rightarrow> int list" where
  "get_due_groups now db set_id user_id =
     [g. (s, g) \<leftarrow> t_set_groups db, s = set_id,
         (case t_user_progress db (user_id, g) of
            None \<Rightarrow> True
          | Some up \<Rightarrow> due_date up \<le> now)]"

subsection \<open>Words of a group\<close>

text \<open>
  A dict comprehension over rows: a key that occurs again keeps its place and takes the
  later value.
\<close>

definition dict_of_rows :: "('k \<times> 'v) list \<Rightarrow> ('k \<times> 'v) list" where
  "dict_of_rows rows = foldl (\<lambda>d (k, v). AList.update k v d) [] rows"

text \<open>
  \<^verbatim>\<open>fetch_group_words(group_id)\<close>: the join of the group's \<^verbatim>\<open>vocab_items\<close> with
  \<^verbatim>\<open>languages\<close>, as a dict from language name to word.
\<close>

definition fetch_group_words :: "database \<Rightarrow> int \<Rightarrow> (string \<times> string) list" where
  "fetch_group_words db group_id =
     dict_of_rows
       [(name, word). (g, language_id, word) \<leftarrow> t_vocab_items db, g = group_id,
                      (i, name) \<leftarrow> t_languages db, i = language_id]"

subsection \<open>The random source\<close>

text \<open>
  The state of \<^verbatim>\<open>random\<close> is the sequence of raw draws still to come. \<open>randbelow n\<close>
  takes the next one, reduced below \<open>n\<close>. \<^verbatim>\<open>random.shuffle\<close> is the library's loop
  \<^verbatim>\<open>for i in reversed(range(1, len(x))): j = randbelow(i + 1); x[i], x[j] = x[j], x[i]\<close>,
  and \<^verbatim>\<open>random.choice(seq)\<close> is \<^verbatim>\<open>seq[randbelow(len(seq))]\<close>.
\<close>

type_synonym rng = "nat \<Rightarrow> nat"

definition randbelow :: "nat \<Rightarrow> rng \<Rightarrow> nat \<times> rng" where
  "randbelow n g = (g 0 mod n, \<lambda>i. g (Suc i))"

fun shuffle_from :: "nat \<Rightarrow> 'a list \<Rightarrow> rng \<Rightarrow> 'a list \<times> rng" where
  "shuffle_from 0 xs g = (xs, g)"
| "shuffle_from (Suc i) xs g =
     (case randbelow (Suc (Suc i)) g of
        (j, g') \<Rightarrow> shuffle_from i (xs[Suc i := xs ! j, j := xs ! Suc i]) g')"

definition shuffle :: "'a list \<Rightarrow> rng \<Rightarrow> 'a list \<times> rng" where
  "shuffle xs g = shuffle_from (length xs - 1) xs g"

definition choice_True_False :: "rng \<Rightarrow> bool \<times> rng" where
  "choice_True_False g = (case randbelow 2 g of (j, g') \<Rightarrow> ([True, False] ! j, g'))"

subsection \<open>Question selection\<close>

datatype error = ValueError

text \<open>The tuple (group_id, source_language, source_word, target_language, target_word).\<close>

type_synonym translation = "int \<times> string \<times> string \<times> string \<times> string"

text \<open>
  The language pairs tried for one group whose dict \<open>words\<close> is not empty.
  \<open>Inr None\<close> is \<^verbatim>\<open>continue\<close>. The branch \<^verbatim>\<open>if languages:\<close> is taken by a list with at
  least one entry; \<^verbatim>\<open>None\<close> and the empty list take the \<^verbatim>\<open>else\<close> branch.
\<close>

fun candidate_options ::
  "string list option \<Rightarrow> (string \<times> string) list \<Rightarrow> error + (string \<times> string) list option" where
  "candidate_options (Some [lang1, lang2]) words =
     (if map_of words lang1 = None \<or> map_of words lang2 = None then Inr None
      else Inr (Some [(lang1, lang2)]))"
| "candidate_options (Some (l # ls)) words = Inl ValueError"
| "candidate_options _ words =
     (let langs = map fst words
      in if length langs < 2 then Inr None
         else Inr (Some [(langs ! i, langs ! j).
                           i \<leftarrow> [0..<length langs], j \<leftarrow> [0..<length langs], i \<noteq> j]))"

text \<open>
  The loop \<^verbatim>\<open>for (src, tgt) in options\<close>: the first pair with both languages in
  \<open>words\<close> is returned; \<open>flip\<close> is \<^verbatim>\<open>random_direction and languages\<close>.
\<close>

fun first_option ::
  "int \<Rightarrow> (string \<times> string) list \<Rightarrow> bool \<Rightarrow> (string \<times> string) list \<Rightarrow> rng \<Rightarrow>
   translation option \<times> rng" where
  "first_option group_id words flip [] g = (None, g)"
| "first_option group_id words flip ((src, tgt) # options) g =
     (case map_of words src of
        None \<Rightarrow> first_option group_id words flip options g
      | Some src_word \<Rightarrow>
          (case map_of words tgt of
             None \<Rightarrow> first_option group_id words flip options g
           | Some tgt_word \<Rightarrow>
               (if flip then
                  (case choice_True_False g of
                     (swap, g') \<Rightarrow>
                       (if swap then (Some (group_id, tgt, tgt_word, src, src_word), g')
                        else (Some (group_id, src, src_word, tgt, tgt_word), g')))
                else (Some (group_id, src, src_word, tgt, tgt_word), g))))"

definition languages_given :: "string list option \<Rightarrow> bool" where
  "languages_given languages = (case languages of None \<Rightarrow> False | Some ls \<Rightarrow> ls \<noteq> [])"

text \<open>The loop \<^verbatim>\<open>for group_id in group_ids\<close> over the shuffled candidates.\<close>

fun scan_groups ::
  "database \<Rightarrow> string list option \<Rightarrow> bool \<Rightarrow> int list \<Rightarrow> rng \<Rightarrow>
   (error + translation option) \<times> rng" where
  "scan_groups db languages random_direction [] g = (Inr None, g)"
| "scan_groups db languages random_direction (group_id # group_ids) g =
     (let words = fetch_group_words db group_id
      in if words = [] then scan_groups db languages random_direction group_ids g
         else
           (case candidate_options languages words of
              Inl e \<Rightarrow> (Inl e, g)
            | Inr None \<Rightarrow> scan_groups db languages random_direction group_ids g
            | Inr (Some options) \<Rightarrow>
                (case shuffle options g of
                   (options', g') \<Rightarrow>
                     (case first_option group_id words
                             (random_direction \<and> languages_given languages) options' g' of
                        (Some result, g'') \<Rightarrow> (Inr (Some result), g'')
                      | (None, g'') \<Rightarrow>
                          scan_groups db languages random_direction group_ids g''))))"

text \<open>
  \<^verbatim>\<open>fetch_random_group_and_direction(set_id, languages, random_direction,
  allowed_group_ids)\<close>: \<open>candidate_pool\<close> is the list \<^verbatim>\<open>group_ids\<close> before the shuffle,
  the groups of the set, kept when they are among \<^verbatim>\<open>allowed_group_ids\<close> if that is given.
\<close>

definition candidate_pool :: "database \<Rightarrow> int \<Rightarrow> int list option \<Rightarrow> int list" where
  "candidate_pool db set_id allowed_group_ids =
     (let group_ids = fetch_set_group_ids db set_id
      in case allowed_group_ids of
           None \<Rightarrow> group_ids
         | Some allowed \<Rightarrow> [gid \<leftarrow> group_ids. gid \<in> set allowed])"

definition fetch_random_group_and_direction ::
  "database \<Rightarrow> rng \<Rightarrow> int \<Rightarrow> string list option \<Rightarrow> bool \<Rightarrow> int list option \<Rightarrow>
   (error + translation option) \<times> rng" where
  "fetch_random_group_and_direction db g set_id languages random_direction allowed_group_ids =
     (let group_ids = candidate_pool db set_id allowed_group_ids
      in if group_ids = [] then (Inr None, g)
         else (case shuffle group_ids g of
                 (group_ids', g') \<Rightarrow>
                   scan_groups db languages random_direction group_ids' g'))"

text \<open>
  The dataclass \<^verbatim>\<open>Question\<close> (its fields with the prefix \<open>q_\<close>) and
  \<^verbatim>\<open>Quiz.generate_question\<close>.
\<close>

record question =
  q_set_id :: int
  q_group_id :: int
  q_source_language :: string
  q_source_word :: string
  q_target_language :: string
  q_target_word :: string

definition generate_question ::
  "database \<Rightarrow> rng \<Rightarrow> int \<Rightarrow> string list option \<Rightarrow> bool \<Rightarrow> int list option \<Rightarrow>
   (error + question option) \<times> rng" where
  "generate_question db g set_id languages random_direction allowed_group_ids =
     (case fetch_random_group_and_direction db g set_id languages random_direction
             allowed_group_ids of
        (Inl e, g') \<Rightarrow> (Inl e, g')
      | (Inr None, g') \<Rightarrow> (Inr None, g')
      | (Inr (Some (group_id, src_lang, src_word, tgt_lang, tgt_word)), g') \<Rightarrow>
          (Inr (Some \<lparr>q_set_id = set_id, q_group_id = group_id,
                      q_source_language = src_lang, q_source_word = src_word,
                      q_target_language = tgt_lang, q_target_word = tgt_word\<rparr>), g'))"

subsection \<open>Distractors\<close>

text \<open>
  The loop of \<^verbatim>\<open>get_distractors\<close> over the shuffled groups, with the list collected so
  far: the word is appended when the group has the target language and the word is new, and
  the length is compared with \<^verbatim>\<open>num_choices\<close> after that, in every iteration.
\<close>

fun collect_distractors ::
  "database \<Rightarrow> string \<Rightarrow> int \<Rightarrow> int list \<Rightarrow> string list \<Rightarrow> string list" where
  "collect_distractors db target_language num_choices [] distractors = distractors"
| "collect_distractors db target_language num_choices (gid # group_ids) distractors =
     (let words = fetch_group_words db gid;
          distractors' =
            (case map_of words target_language of
               Some w \<Rightarrow> if w \<notin> set distractors then distractors @ [w] else distractors
             | None \<Rightarrow> distractors)
      in if int (length distractors') \<ge> num_choices then distractors'
         else collect_distractors db target_language num_choices group_ids distractors')"

definition get_distractors ::
  "database \<Rightarrow> rng \<Rightarrow> int \<Rightarrow> int \<Rightarrow> string \<Rightarrow> int \<Rightarrow> string list \<times> rng" where
  "get_distractors db g set_id exclude_group_id target_language num_choices =
     (let group_ids = fetch_set_group_ids db set_id;
          group_ids = [gid \<leftarrow> group_ids. gid \<noteq> exclude_group_id]
      in case shuffle group_ids g of
           (group_ids', g') \<Rightarrow>
             (collect_distractors db target_language num_choices group_ids' [], g'))"

text \<open>
  The options of a multiple-choice question, as \<^verbatim>\<open>quiz_start\<close> and \<^verbatim>\<open>quiz_question\<close>
  build them: three distractors are asked for, the correct word is appended, and the list
  is shuffled.
\<close>

definition choice_options :: "database \<Rightarrow> rng \<Rightarrow> int \<Rightarrow> question \<Rightarrow> string list \<times> rng" where
  "choice_options db g set_id q =
     (case get_distractors db g set_id (q_group_id q) (q_target_language q) 3 of
        (distractors, g') \<Rightarrow> shuffle (distractors @ [q_target_word q]) g')"

subsection \<open>Statistics\<close>

text \<open>
  The rows of \<^verbatim>\<open>quiz_answers a JOIN quiz_sessions s ON a.session_id = s.id\<close> that pass the
  \<^verbatim>\<open>WHERE\<close> clause of \<^verbatim>\<open>get_problematic_groups\<close>: the session is of the set, not older
  than \<^verbatim>\<open>since_days\<close> days when that is given, and of the user when that is given (a
  session whose \<^verbatim>\<open>user_id\<close> is \<^verbatim>\<open>NULL\<close> is of no user). The callers pass 7, 30 or
  nothing for \<^verbatim>\<open>since_days\<close>, a natural number here.
\<close>

definition matching_answers ::
  "timestamp \<Rightarrow> database \<Rightarrow> int \<Rightarrow> nat option \<Rightarrow> int option \<Rightarrow> quiz_answer_row list" where
  "matching_answers now db set_id since_days user_id =
     [a. a \<leftarrow> t_quiz_answers db, s \<leftarrow> t_quiz_sessions db, qa_session_id a = qs_id s,
         qs_set_id s = set_id,
         (case since_days of None \<Rightarrow> True
          | Some d \<Rightarrow> qs_session_time s \<ge> now - timedelta_days d),
         (case user_id of None \<Rightarrow> True | Some u \<Rightarrow> qs_user_id s = Some u)]"

text \<open>
  \<^verbatim>\<open>get_problematic_groups(set_id, threshold, since_days, user_id)\<close>: the rows are grouped
  by \<^verbatim>\<open>group_id\<close>, and a group is kept when
  \<^verbatim>\<open>CAST(SUM(correct) AS FLOAT) / COUNT(*) < threshold\<close>. The quotient and the threshold
  are rationals here: the comparison is the exact one, which the floating-point one agrees
  with for the default threshold \<^verbatim>\<open>0.7\<close> unless a group has more than \<open>10^15\<close> answers.
\<close>

definition get_problematic_groups ::
  "timestamp \<Rightarrow> database \<Rightarrow> int \<Rightarrow> rat \<Rightarrow> nat option \<Rightarrow> int option \<Rightarrow> int list" where
  "get_problematic_groups now db set_id threshold since_days user_id =
     (let rows = matching_answers now db set_id since_days user_id
      in [g \<leftarrow> remdups (map qa_group_id rows).
            (let grp = [a \<leftarrow> rows. qa_group_id a = g];
                 correct_count = sum_list (map correct_value grp);
                 total_count = int (length grp)
             in of_int correct_count / of_int total_count < threshold)])"

subsection \<open>Text\<close>

text \<open>
  \<^verbatim>\<open>str.lower\<close> and \<^verbatim>\<open>str.strip\<close> on the code points below 256, as Python's Unicode tables
  have them. The upper-case letters are 65 to 90 (\<open>A\<close> to \<open>Z\<close>), 192 to 214 and 216 to 222
  (the accented capitals; 215 is the multiplication sign), and the lower-case letter of
  each is 32 further on; every other code point below 256, also 181 and 223, is its own
  lower case. White space is 9 to 13, 28 to 31, 32 (the space), 133 (next line) and 160
  (the no-break space). \<^verbatim>\<open>strip\<close> removes the white space at both ends.
\<close>

definition lower_char :: "char \<Rightarrow> char" where
  "lower_char c =
     (let n = (of_char c :: nat)
      in if (65 \<le> n \<and> n \<le> 90) \<or> (192 \<le> n \<and> n \<le> 214) \<or> (216 \<le> n \<and> n \<le> 222)
         then char_of (n + 32) else c)"

definition lower :: "string \<Rightarrow> string" where
  "lower s = map lower_char s"

definition isspace :: "char \<Rightarrow> bool" where
  "isspace c =
     (let n = (of_char c :: nat)
      in n = 32 \<or> (9 \<le> n \<and> n \<le> 13) \<or> (28 \<le> n \<and> n \<le> 31) \<or> n = 133 \<or> n = 160)"

definition strip :: "string \<Rightarrow> string" where
  "strip s = rev (dropWhile isspace (rev (dropWhile isspace s)))"

text \<open>\<^verbatim>\<open>Question.check_answer(answer)\<close>.\<close>

definition check_answer :: "question \<Rightarrow> string \<Rightarrow> bool" where
  "check_answer q answer = (lower (strip answer) = lower (strip (q_target_word q)))"

subsection \<open>The answer step of a quiz session\<close>

text \<open>
  The session keeps the dict \<^verbatim>\<open>quiz\<close> (fields with the prefix \<open>st_\<close>) and the dict
  \<^verbatim>\<open>current_question\<close> (fields with the prefix \<open>cq_\<close>); an entry of the answer log has
  the prefix \<open>ae_\<close>. The submitted form is a map from field names to values.
\<close>

record answer_entry =
  ae_group_id :: int
  ae_from_lang :: string
  ae_to_lang :: string
  ae_correct :: bool

record quiz_state =
  st_set_id :: int
  st_selected_langs :: "string list option"
  st_random_dir :: bool
  st_mode :: string
  st_spaced :: bool
  st_problem_only :: bool
  st_allowed_groups :: "int list option"
  st_score :: int
  st_total :: int
  st_answers :: "answer_entry list"

record current_question =
  cq_group_id :: int
  cq_src_lang :: string
  cq_src_word :: string
  cq_tgt_lang :: string
  cq_tgt_word :: string
  cq_choices :: "string list option"

text \<open>\<^verbatim>\<open>request.form.get(key, default)\<close>.\<close>

definition form_get :: "(string \<Rightarrow> string option) \<Rightarrow> string \<Rightarrow> string \<Rightarrow> string" where
  "form_get form key dflt = (case form key of None \<Rightarrow> dflt | Some v \<Rightarrow> v)"

text \<open>
  The grading at the head of the \<^verbatim>\<open>POST\<close> branch of \<^verbatim>\<open>quiz_question\<close>: the value of
  \<^verbatim>\<open>correct\<close> for the mode of the session, the submitted form and the current question.
\<close>

definition graded_correct ::
  "string \<Rightarrow> (string \<Rightarrow> string option) \<Rightarrow> current_question option \<Rightarrow> bool" where
  "graded_correct mode form current_q =
     (if mode = ''typed'' then
        (let user_input = strip (form_get form ''answer'' [])
         in case current_q of
              Some cq \<Rightarrow> lower user_input = lower (cq_tgt_word cq)
            | None \<Rightarrow> False)
      else if mode = ''choice'' then
        (let user_input = strip (form_get form ''choice'' [])
         in case current_q of
              Some cq \<Rightarrow> user_input = cq_tgt_word cq
            | None \<Rightarrow> False)
      else if mode = ''flashcard'' then
        (let user_input = form_get form ''knew'' ''no''
         in case current_q of
              Some cq \<Rightarrow> user_input = ''yes''
            | None \<Rightarrow> False)
      else False)"

text \<open>
  The block \<^verbatim>\<open>if quiz_state.get("spaced")\<close> of the same branch: the value stored as
  \<^verbatim>\<open>allowed_groups\<close>. \<^verbatim>\<open>uid\<close> is \<^verbatim>\<open>session.get("user_id")\<close>, and \<^verbatim>\<open>if uid\<close> holds for
  an identifier other than 0. \<^verbatim>\<open>get_problematic_groups(set_id)\<close> runs with its defaults,
  the threshold \<^verbatim>\<open>0.7\<close> and no filter.
\<close>

definition recomputed_allowed ::
  "timestamp \<Rightarrow> database \<Rightarrow> int \<Rightarrow> int option \<Rightarrow> bool \<Rightarrow> int list option" where
  "recomputed_allowed now db set_id uid problem_only =
     (let due_groups =
            (case uid of
               None \<Rightarrow> None
             | Some u \<Rightarrow> if u \<noteq> 0 then Some (get_due_groups now db set_id u) else None);
          allowed =
            (if problem_only then
               (let prob = get_problematic_groups now db set_id (7 / 10) None None
                in case due_groups of
                     Some due \<Rightarrow> Some [gid \<leftarrow> due. gid \<in> set prob]
                   | None \<Rightarrow> Some prob)
             else due_groups)
      in case allowed of
           None \<Rightarrow> None
         | Some a \<Rightarrow> if length a = 0 then None else Some a)"

text \<open>
  The \<^verbatim>\<open>POST\<close> branch of \<^verbatim>\<open>quiz_question\<close> up to the draw of the next question: the
  session is checked, the answer graded, logged and passed to the progress tracker (with the
  clock reading \<open>now_update\<close>), the counters are advanced, the restriction is recomputed when
  spaced repetition is on (with the clock reading \<open>now_due\<close>), and the next question is
  asked for with the stored restriction. The result is the database, the session state,
  what \<^verbatim>\<open>generate_question\<close> gave, and the random source.
\<close>

datatype post_result =
  Expired
| Drawn database quiz_state "error + question option" rng

definition quiz_question_post ::
  "timestamp \<Rightarrow> timestamp \<Rightarrow> rng \<Rightarrow> database \<Rightarrow> int option \<Rightarrow> int \<Rightarrow> quiz_state option \<Rightarrow>
   current_question option \<Rightarrow> (string \<Rightarrow> string option) \<Rightarrow> post_result" where
  "quiz_question_post now_update now_due g db uid set_id quiz_state current_q form =
     (case quiz_state of
        None \<Rightarrow> Expired
      | Some st \<Rightarrow>
          if st_set_id st \<noteq> set_id then Expired
          else
            (let correct = graded_correct (st_mode st) form current_q;
                 st1 = (case current_q of
                          None \<Rightarrow> st
                        | Some cq \<Rightarrow>
                            st\<lparr>st_answers := st_answers st @
                                 [\<lparr>ae_group_id = cq_group_id cq, ae_from_lang = cq_src_lang cq,
                                   ae_to_lang = cq_tgt_lang cq, ae_correct = correct\<rparr>]\<rparr>);
                 db1 = (case current_q of
                          None \<Rightarrow> db
                        | Some cq \<Rightarrow>
                            (case uid of
                               None \<Rightarrow> db
                             | Some u \<Rightarrow>
                                 if u \<noteq> 0
                                 then update_user_progress now_update db u (cq_group_id cq) correct
                                 else db));
                 st2 = st1\<lparr>st_total := st_total st1 + 1\<rparr>;
                 st3 = (if correct then st2\<lparr>st_score := st_score st2 + 1\<rparr> else st2);
                 st4 = (if st_spaced st3
                        then st3\<lparr>st_allowed_groups :=
                               recomputed_allowed now_due db1 set_id uid (st_problem_only st3)\<rparr>
                        else st3)
             in case generate_question db1 g set_id (st_selected_langs st4) (st_random_dir st4)
                       (st_allowed_groups st4) of
                  (q, g') \<Rightarrow> Drawn db1 st4 q g'))"

subsection \<open>Example databases\<close>

text \<open>
  The lesson of the scenarios: set 1 holds group 1 (Swedish \<open>hund\<close>, English \<open>dog\<close>) and
  group 2 (Swedish \<open>katt\<close>, English \<open>cat\<close>); set 2 holds no group. Nobody has answered yet.
\<close>

definition scenario_db :: database where
  "scenario_db =
     \<lparr>t_languages = [(1, ''Swedish''), (2, ''English''), (3, ''Spanish'')],
      t_vocab_items = [(1, 1, ''hund''), (1, 2, ''dog''), (2, 1, ''katt''), (2, 2, ''cat'')],
      t_set_groups = [(1, 1), (1, 2)],
      t_quiz_sessions = [],
      t_quiz_answers = [],
      t_user_progress = Map.empty\<rparr>"


text \<open>
  A lesson with two groups that share their English word: group 1 (Swedish \<open>hej\<close>,
  English \<open>hello\<close>) and group 2 (Swedish \<open>halla\<close>, English \<open>hello\<close>).
\<close>

definition homonym_db :: database where
  "homonym_db =
     \<lparr>t_languages = [(1, ''Swedish''), (2, ''English''), (3, ''Spanish'')],
      t_vocab_items = [(1, 1, ''hej''), (1, 2, ''hello''), (2, 1, ''halla''), (2, 2, ''hello'')],
      t_set_groups = [(1, 1), (1, 2)],
      t_quiz_sessions = [],
      t_quiz_answers = [],
      t_user_progress = Map.empty\<rparr>"

text \<open>A lesson whose only group has an empty Swedish word.\<close>

definition blank_db :: database where
  "blank_db =
     \<lparr>t_languages = [(1, ''Swedish''), (2, ''English''), (3, ''Spanish'')],
      t_vocab_items = [(1, 1, []), (1, 2, ''dog'')],
      t_set_groups = [(1, 1)],
      t_quiz_sessions = [],
      t_quiz_answers = [],
      t_user_progress = Map.empty\<rparr>"

text \<open>
  A session on the lesson of the scenarios: typed answers from Swedish to English, with
  spaced repetition, and the question of group 1 as the current one.
\<close>

definition typed_session :: quiz_state where
  "typed_session =
     \<lparr>st_set_id = 1, st_selected_langs = Some [''Swedish'', ''English''],
      st_random_dir = False, st_mode = ''typed'', st_spaced = True,
      st_problem_only = False, st_allowed_groups = Some [1, 2],
      st_score = 0, st_total = 0, st_answers = []\<rparr>"

definition hund_question :: current_question where
  "hund_question =
     \<lparr>cq_group_id = 1, cq_src_lang = ''Swedish'', cq_src_word = ''hund'',
      cq_tgt_lang = ''English'', cq_tgt_word = ''dog'', cq_choices = None\<rparr>"

text \<open>A random source whose every draw is 0.\<close>

definition zero_rng :: rng where
  "zero_rng = (\<lambda>_. 0)"

section \<open>Properties\<close>

subsection \<open>The Leitner rule\<close>

lemma update_user_progress_at:
  "t_user_progress (update_user_progress now db u g c) (u, g) =
     Some (case t_user_progress db (u, g) of
             None \<Rightarrow> \<lparr>box = (if c then 1 else 0),
                       due_date = now + timedelta_days (2 ^ (if c then 1 else 0))\<rparr>
           | Some r \<Rightarrow> \<lparr>box = (if c then min (box r + 1) 5 else 0),
                        due_date = now + timedelta_days (2 ^ (if c then min (box r + 1) 5 else 0))\<rparr>)"
  by (simp add: update_user_progress_def Let_def split: option.splits)

lemma update_user_progress_other:
  "k \<noteq> (u, g) \<Longrightarrow> t_user_progress (update_user_progress now db u g c) k = t_user_progress db k"
  by (simp add: update_user_progress_def Let_def split: option.splits)

lemma answer_run_append:
  "answer_run db u g (xs @ ys) = answer_run (answer_run db u g xs) u g ys"
  by (induction xs arbitrary: db) auto

lemma min_box_step: "min (min (b + 1) 5 + n + 1) (5::nat) = min (b + Suc n + 1) 5"
  by arith

lemma correct_streak_warm:
  assumes "t_user_progress db (u, g) = Some r"
  shows "t_user_progress (answer_run db u g (map (\<lambda>t. (t, True)) (ts @ [now]))) (u, g) =
     Some \<lparr>box = min (box r + length ts + 1) 5,
           due_date = now + timedelta_days (2 ^ min (box r + length ts + 1) 5)\<rparr>"
  using assms
proof (induction ts arbitrary: db r)
  case Nil
  then show ?case by (simp add: update_user_progress_at)
next
  case (Cons t ts)
  let ?db = "update_user_progress t db u g True"
  let ?r = "\<lparr>box = min (box r + 1) 5, due_date = t + timedelta_days (2 ^ min (box r + 1) 5)\<rparr>"
  have "t_user_progress ?db (u, g) = Some ?r"
    using Cons.prems by (simp add: update_user_progress_at)
  from Cons.IH [OF this]
  have "t_user_progress (answer_run ?db u g (map (\<lambda>t. (t, True)) (ts @ [now]))) (u, g) =
     Some \<lparr>box = min (min (box r + 1) 5 + length ts + 1) 5,
           due_date = now + timedelta_days (2 ^ min (min (box r + 1) 5 + length ts + 1) 5)\<rparr>"
    by simp
  then show ?case
    unfolding min_box_step by simp
qed

lemma correct_streak_cold:
  assumes cold: "t_user_progress db (u, g) = None"
  shows "t_user_progress (answer_run db u g (map (\<lambda>t. (t, True)) (ts @ [now]))) (u, g) =
     Some \<lparr>box = min (length ts + 1) 5,
           due_date = now + timedelta_days (2 ^ min (length ts + 1) 5)\<rparr>"
proof (cases ts)
  case Nil
  then show ?thesis using cold by (simp add: update_user_progress_at)
next
  case (Cons t ts')
  let ?db = "update_user_progress t db u g True"
  have "t_user_progress ?db (u, g) = Some \<lparr>box = 1, due_date = t + timedelta_days (2 ^ 1)\<rparr>"
    using cold by (simp add: update_user_progress_at)
  from correct_streak_warm [OF this, of ts' now] show ?thesis
    using Cons by simp
qed

lemma incorrect_resets:
  "t_user_progress (answer_run db u g (run @ [(now, False)])) (u, g) =
     Some \<lparr>box = 0, due_date = now + timedelta_days 1\<rparr>"
  by (simp add: answer_run_append update_user_progress_at split: option.splits)

text \<open>
  C1. For every user \<open>u\<close> and group \<open>g\<close>, one call of \<open>update_user_progress\<close> at the clock
  reading \<open>now\<close> leaves the row of (\<open>u\<close>, \<open>g\<close>) as the Leitner rule says: with no row before,
  the box is 1 after a correct answer and 0 after an incorrect one; with a row \<open>r\<close> before,
  the box is \<open>min (box r + 1) 5\<close> after a correct answer and 0 after an incorrect one; the
  due date is \<open>now\<close> plus \<open>2 ^ box\<close> days in each case, and no other row changes. So after
  \<open>N \<ge> 1\<close> correct answers in a row (at the readings \<open>ts @ [now]\<close>) that start with no row,
  the box is \<open>min N 5\<close> and the due date is the last reading plus \<open>2 ^ box\<close> days; and an
  incorrect answer after any run of answers, from any database, leaves box 0, due in one
  day.
\<close>

theorem update_user_progress_leitner:
  "(t_user_progress db (u, g) = None \<longrightarrow>
      t_user_progress (update_user_progress now db u g c) (u, g) =
        Some \<lparr>box = (if c then 1 else 0),
              due_date = now + timedelta_days (2 ^ (if c then 1 else 0))\<rparr>) \<and>
   (\<forall>r. t_user_progress db (u, g) = Some r \<longrightarrow>
      t_user_progress (update_user_progress now db u g c) (u, g) =
        Some \<lparr>box = (if c then min (box r + 1) 5 else 0),
              due_date = now + timedelta_days (2 ^ (if c then min (box r + 1) 5 else 0))\<rparr>) \<and>
   (\<forall>k. k \<noteq> (u, g) \<longrightarrow>
      t_user_progress (update_user_progress now db u g c) k = t_user_progress db k) \<and>
   (t_user_progress db (u, g) = None \<longrightarrow>
      t_user_progress (answer_run db u g (map (\<lambda>t. (t, True)) (ts @ [now]))) (u, g) =
        Some \<lparr>box = min (length (ts @ [now])) 5,
              due_date = now + timedelta_days (2 ^ min (length (ts @ [now])) 5)\<rparr>) \<and>
   t_user_progress (answer_run db u g (run @ [(now, False)])) (u, g) =
     Some \<lparr>box = 0, due_date = now + timedelta_days (2 ^ 0)\<rparr>"
proof (intro conjI allI impI)
  show "t_user_progress (answer_run db u g (run @ [(now, False)])) (u, g) =
     Some \<lparr>box = 0, due_date = now + timedelta_days (2 ^ 0)\<rparr>"
    using incorrect_resets [of db u g run now] by simp
next
  assume "t_user_progress db (u, g) = None"
  from correct_streak_cold [OF this, of ts now]
  show "t_user_progress (answer_run db u g (map (\<lambda>t. (t, True)) (ts @ [now]))) (u, g) =
        Some \<lparr>box = min (length (ts @ [now])) 5,
              due_date = now + timedelta_days (2 ^ min (length (ts @ [now])) 5)\<rparr>"
    by simp
qed (simp_all add: update_user_progress_at update_user_progress_other)

text \<open>
  The scenario of the lesson: user 1 answers group 1 correctly at the readings 10, 20 and
  30, from a cold start, and is in box 3, due 8 days after 30; a fourth correct answer at 35
  moves the row to box 4 and leaves the row of group 2 absent; an incorrect answer at 40
  gives box 0, due one day after 40.
\<close>

theorem update_user_progress_leitner_witness:
  "t_user_progress scenario_db (1, 1) = None \<and>
   t_user_progress (update_user_progress 10 scenario_db 1 1 True) (1, 1) =
     Some \<lparr>box = 1, due_date = 10 + timedelta_days 2\<rparr> \<and>
   t_user_progress (answer_run scenario_db 1 1 [(10, True), (20, True), (30, True)]) (1, 1) =
     Some \<lparr>box = 3, due_date = 30 + timedelta_days 8\<rparr> \<and>
   t_user_progress
     (update_user_progress 35
        (answer_run scenario_db 1 1 [(10, True), (20, True), (30, True)]) 1 1 True) (1, 1) =
     Some \<lparr>box = 4, due_date = 35 + timedelta_days 16\<rparr> \<and>
   t_user_progress
     (update_user_progress 35
        (answer_run scenario_db 1 1 [(10, True), (20, True), (30, True)]) 1 1 True) (1, 2) = None \<and>
   t_user_progress
     (answer_run scenario_db 1 1 ([(10, True), (20, True), (30, True)] @ [(40, False)])) (1, 1) =
     Some \<lparr>box = 0, due_date = 40 + timedelta_days 1\<rparr>"
proof -
  have cold: "t_user_progress scenario_db (1, 1) = None"
    by (simp add: scenario_db_def)
  have cold2: "t_user_progress scenario_db (1, 2) = None"
    by (simp add: scenario_db_def)
  let ?db3 = "answer_run scenario_db 1 1 [(10, True), (20, True), (30, True)]"
  note a = update_user_progress_leitner
    [of scenario_db 1 1 10 True "[10, 20]" "[(10, True), (20, True), (30, True)]"]
  note b = update_user_progress_leitner [of scenario_db 1 1 30 True "[10, 20]" "[]"]
  note c = update_user_progress_leitner
    [of scenario_db 1 1 40 True "[]" "[(10, True), (20, True), (30, True)]"]
  have three: "t_user_progress ?db3 (1, 1) = Some \<lparr>box = 3, due_date = 30 + timedelta_days 8\<rparr>"
    using b cold by simp
  note d = update_user_progress_leitner [of ?db3 1 1 35 True "[]" "[]"]
  have four: "t_user_progress (update_user_progress 35 ?db3 1 1 True) (1, 1) =
      Some \<lparr>box = 4, due_date = 35 + timedelta_days 16\<rparr>"
    using d three by simp
  have other: "t_user_progress (update_user_progress 35 ?db3 1 1 True) (1, 2) = None"
    using d cold2 by (simp add: update_user_progress_other)
  show ?thesis
    using a c cold three four other by simp
qed

subsection \<open>Due groups\<close>

lemma select_where_filter:
  "[g. (s', g) \<leftarrow> rows, s' = s, P g] = [g \<leftarrow> [g. (s', g) \<leftarrow> rows, s' = s]. P g]"
  by (induction rows) auto

lemma get_due_groups_filter:
  "get_due_groups now db s u =
     [g \<leftarrow> fetch_set_group_ids db s.
        (case t_user_progress db (u, g) of None \<Rightarrow> True | Some up \<Rightarrow> due_date up \<le> now)]"
  unfolding get_due_groups_def fetch_set_group_ids_def
  by (rule select_where_filter)

text \<open>
  C3. \<open>get_due_groups\<close> at the clock reading \<open>now\<close> returns the groups of the set, in the
  order of \<open>fetch_set_group_ids\<close>, for which the user has no progress row or a row with
  \<open>due_date \<le> now\<close>, and no other; for a user without any progress row it returns all
  groups of the set.
\<close>

theorem get_due_groups_exact:
  "get_due_groups now db s u =
     [g \<leftarrow> fetch_set_group_ids db s.
        t_user_progress db (u, g) = None \<or>
        (\<exists>up. t_user_progress db (u, g) = Some up \<and> due_date up \<le> now)] \<and>
   set (get_due_groups now db s u) =
     {g. g \<in> set (fetch_set_group_ids db s) \<and>
         (t_user_progress db (u, g) = None \<or>
          (\<exists>up. t_user_progress db (u, g) = Some up \<and> due_date up \<le> now))} \<and>
   ((\<forall>g. t_user_progress db (u, g) = None) \<longrightarrow>
      get_due_groups now db s u = fetch_set_group_ids db s)"
proof -
  have same: "(case t_user_progress db (u, g) of None \<Rightarrow> True | Some up \<Rightarrow> due_date up \<le> now) =
      (t_user_progress db (u, g) = None \<or>
       (\<exists>up. t_user_progress db (u, g) = Some up \<and> due_date up \<le> now))" for g
    by (cases "t_user_progress db (u, g)") simp_all
  have list: "get_due_groups now db s u =
     [g \<leftarrow> fetch_set_group_ids db s.
        t_user_progress db (u, g) = None \<or>
        (\<exists>up. t_user_progress db (u, g) = Some up \<and> due_date up \<le> now)]"
    unfolding get_due_groups_filter same ..
  have cold: "get_due_groups now db s u = fetch_set_group_ids db s"
    if "\<forall>g. t_user_progress db (u, g) = None"
    using that unfolding list by simp
  show ?thesis
    using list cold by auto
qed

text \<open>
  In the lesson of the scenarios nobody has answered, and both groups are due for user 1.
  After a correct answer of user 1 to group 1 at the reading 10, group 1 is due again two
  days later, so at the reading 20 only group 2 is due, and two days after 10 both are.
\<close>

theorem get_due_groups_exact_witness:
  "get_due_groups 20 scenario_db 1 1 = [1, 2] \<and>
   fetch_set_group_ids scenario_db 1 = [1, 2] \<and>
   get_due_groups 20 (update_user_progress 10 scenario_db 1 1 True) 1 1 = [2] \<and>
   get_due_groups (10 + timedelta_days 2) (update_user_progress 10 scenario_db 1 1 True) 1 1 =
     [1, 2]"
proof -
  have ids: "fetch_set_group_ids scenario_db 1 = [1, 2]"
    by (simp add: fetch_set_group_ids_def scenario_db_def)
  have none: "\<forall>g. t_user_progress scenario_db (1, g) = None"
    by (simp add: scenario_db_def)
  let ?db = "update_user_progress 10 scenario_db 1 1 True"
  have ids': "fetch_set_group_ids ?db 1 = [1, 2]"
    by (simp add: fetch_set_group_ids_def scenario_db_def update_user_progress_def)
  have p1: "t_user_progress ?db (1, 1) = Some \<lparr>box = 1, due_date = 10 + timedelta_days 2\<rparr>"
    by (simp add: update_user_progress_def scenario_db_def)
  have p2: "t_user_progress ?db (1, 2) = None"
    by (simp add: update_user_progress_def scenario_db_def)
  have late: "\<not> 10 + timedelta_days 2 \<le> 20"
    by (simp add: timedelta_days_def microseconds_per_day_def)
  show ?thesis
    using get_due_groups_exact [of 20 scenario_db 1 1]
      get_due_groups_exact [of 20 ?db 1 1]
      get_due_groups_exact [of "10 + timedelta_days 2" ?db 1 1]
      ids ids' none p1 p2 late
    by simp
qed

subsection \<open>Problematic groups\<close>




subsection \<open>Shuffling and dicts\<close>

lemma randbelow_less: "0 < n \<Longrightarrow> fst (randbelow n g) < n"
  by (simp add: randbelow_def)

lemma mset_shuffle_from:
  "i < length xs \<Longrightarrow> mset (fst (shuffle_from i xs g)) = mset xs"
proof (induction i arbitrary: xs g)
  case 0
  then show ?case by simp
next
  case (Suc i)
  obtain j g' where draw: "randbelow (Suc (Suc i)) g = (j, g')"
    by (cases "randbelow (Suc (Suc i)) g")
  have "j < Suc (Suc i)"
    using randbelow_less [of "Suc (Suc i)" g] draw by simp
  with Suc.prems have j: "j < length xs" by simp
  let ?ys = "xs[Suc i := xs ! j, j := xs ! Suc i]"
  have swap: "mset ?ys = mset xs"
    using mset_swap [of j xs "Suc i"] j Suc.prems by simp
  have "i < length ?ys" using Suc.prems by simp
  from Suc.IH [OF this, of g'] show ?case
    using draw swap by simp
qed

lemma mset_shuffle: "mset (fst (shuffle xs g)) = mset xs"
proof (cases xs)
  case Nil
  then show ?thesis by (simp add: shuffle_def)
next
  case (Cons x xs')
  then have "length xs - 1 < length xs" by simp
  then show ?thesis
    unfolding shuffle_def by (rule mset_shuffle_from)
qed

lemma set_shuffle: "set (fst (shuffle xs g)) = set xs"
  using mset_shuffle [of xs g] by (rule mset_eq_setD)

lemma shuffle_singleton: "shuffle [x] g = ([x], g)"
  by (simp add: shuffle_def)

lemma distinct_foldl_update:
  "distinct (map fst d) \<Longrightarrow>
   distinct (map fst (foldl (\<lambda>d (k, v). AList.update k v d) d rows))"
  by (induction rows arbitrary: d) (auto simp: distinct_update)

lemma distinct_fetch_group_words: "distinct (map fst (fetch_group_words db gid))"
  unfolding fetch_group_words_def dict_of_rows_def
  by (rule distinct_foldl_update) simp

subsection \<open>Question selection\<close>

lemma first_option_Some:
  "first_option gid words flip opts g = (Some (gid', slg, sw, tlg, tw), g') \<Longrightarrow>
   gid' = gid \<and> map_of words slg = Some sw \<and> map_of words tlg = Some tw \<and>
   ((slg, tlg) \<in> set opts \<or> (flip \<and> (tlg, slg) \<in> set opts))"
proof (induction opts arbitrary: g)
  case Nil
  then show ?case by simp
next
  case (Cons p opts)
  obtain src tgt where p: "p = (src, tgt)" by (cases p)
  show ?case
  proof (cases "map_of words src")
    case None
    with Cons p show ?thesis by auto
  next
    case (Some src_word)
    note src = this
    show ?thesis
    proof (cases "map_of words tgt")
      case None
      with Cons p src show ?thesis by auto
    next
      case (Some tgt_word)
      with Cons.prems p src show ?thesis
        by (auto split: if_splits prod.splits)
    qed
  qed
qed

lemma first_option_None:
  "first_option gid words flip opts g = (None, g') \<Longrightarrow>
   (\<forall>(src, tgt) \<in> set opts. map_of words src = None \<or> map_of words tgt = None) \<and> g' = g"
proof (induction opts arbitrary: g)
  case Nil
  then show ?case by simp
next
  case (Cons p opts)
  obtain src tgt where p: "p = (src, tgt)" by (cases p)
  from Cons.prems p have miss: "map_of words src = None \<or> map_of words tgt = None"
    by (auto split: option.splits if_splits prod.splits)
  with Cons.prems p have "first_option gid words flip opts g = (None, g')"
    by (auto split: option.splits)
  from Cons.IH [OF this] miss p show ?case by auto
qed

lemma candidate_options_given:
  "languages_given languages \<Longrightarrow> candidate_options languages words = Inr (Some opts) \<Longrightarrow>
   \<exists>l1 l2. languages = Some [l1, l2] \<and> opts = [(l1, l2)] \<and>
     map_of words l1 \<noteq> None \<and> map_of words l2 \<noteq> None"
  by (cases "(languages, words)" rule: candidate_options.cases)
    (auto simp: languages_given_def split: if_splits)

lemma candidate_options_free:
  assumes "\<not> languages_given languages"
    and "candidate_options languages words = Inr (Some opts)"
    and "distinct (map fst words)"
  shows "2 \<le> length words \<and> (\<forall>(a, b) \<in> set opts. a \<noteq> b)"
proof -
  let ?langs = "map fst words"
  from assms(1) have "languages = None \<or> languages = Some []"
    by (auto simp: languages_given_def split: option.splits)
  then have eq: "candidate_options languages words =
      (if length ?langs < 2 then Inr None
       else Inr (Some [(?langs ! i, ?langs ! j).
                         i \<leftarrow> [0..<length ?langs], j \<leftarrow> [0..<length ?langs], i \<noteq> j]))"
    by (auto simp: Let_def)
  with assms(2) have len: "2 \<le> length words"
    by (auto split: if_splits)
  from eq assms(2) have opts: "opts = [(?langs ! i, ?langs ! j).
                         i \<leftarrow> [0..<length ?langs], j \<leftarrow> [0..<length ?langs], i \<noteq> j]"
    by (auto split: if_splits)
  have "a \<noteq> b" if "(a, b) \<in> set opts" for a b
  proof -
    from that opts obtain i j where "i < length ?langs" "j < length ?langs" "i \<noteq> j"
      "a = ?langs ! i" "b = ?langs ! j"
      by (auto split: if_splits)
    with assms(3) nth_eq_iff_index_eq [of ?langs i j] show ?thesis
      by simp
  qed
  with len show ?thesis by auto
qed

lemma candidate_options_malformed:
  "languages = Some ls \<Longrightarrow> ls \<noteq> [] \<Longrightarrow> length ls \<noteq> 2 \<Longrightarrow>
   candidate_options languages words = Inl ValueError"
  by (cases "(languages, words)" rule: candidate_options.cases) auto

lemma candidate_options_error:
  "candidate_options languages words = Inl e \<Longrightarrow>
   \<exists>ls. languages = Some ls \<and> ls \<noteq> [] \<and> length ls \<noteq> 2"
  by (cases "(languages, words)" rule: candidate_options.cases)
    (auto simp: Let_def split: if_splits)

lemma scan_groups_Some:
  "fst (scan_groups db languages rd gids g) = Inr (Some (gid, slg, sw, tlg, tw)) \<Longrightarrow>
   gid \<in> set gids \<and>
   map_of (fetch_group_words db gid) slg = Some sw \<and>
   map_of (fetch_group_words db gid) tlg = Some tw \<and>
   (\<not> languages_given languages \<longrightarrow> slg \<noteq> tlg \<and> 2 \<le> length (fetch_group_words db gid)) \<and>
   (languages_given languages \<longrightarrow>
      (\<exists>l1 l2. languages = Some [l1, l2] \<and>
         ((slg, tlg) = (l1, l2) \<or> (rd \<and> (slg, tlg) = (l2, l1)))))"
proof (induction gids arbitrary: g)
  case Nil
  then show ?case by simp
next
  case (Cons x gids)
  let ?words = "fetch_group_words db x"
  show ?case
  proof (cases "?words = []")
    case True
    with Cons show ?thesis by simp
  next
    case False
    note nonempty = this
    show ?thesis
    proof (cases "candidate_options languages ?words")
      case (Inl e)
      with Cons.prems nonempty show ?thesis by simp
    next
      case (Inr r)
      show ?thesis
      proof (cases r)
        case None
        with Cons Inr nonempty show ?thesis by simp
      next
        case (Some opts)
        obtain opts' g' where sh: "shuffle opts g = (opts', g')"
          by (cases "shuffle opts g")
        have set_opts: "set opts' = set opts"
          using set_shuffle [of opts g] sh by simp
        obtain res g'' where fo:
          "first_option x ?words (rd \<and> languages_given languages) opts' g' = (res, g'')"
          by (cases "first_option x ?words (rd \<and> languages_given languages) opts' g'")
        show ?thesis
        proof (cases res)
          case None
          with Cons Inr Some nonempty sh fo show ?thesis by simp
        next
          case (Some t)
          note res = this
          with Cons.prems Inr \<open>r = Some opts\<close> nonempty sh fo
          have t: "t = (gid, slg, sw, tlg, tw)" by simp
          from first_option_Some [OF fo [unfolded res t]]
          have fo': "gid = x" "map_of ?words slg = Some sw" "map_of ?words tlg = Some tw"
            "(slg, tlg) \<in> set opts \<or> ((rd \<and> languages_given languages) \<and> (tlg, slg) \<in> set opts)"
            using set_opts by auto
          show ?thesis
          proof (cases "languages_given languages")
            case True
            from candidate_options_given [OF True] Inr \<open>r = Some opts\<close>
            obtain l1 l2 where "languages = Some [l1, l2]" "opts = [(l1, l2)]"
              by blast
            with fo' True show ?thesis by auto
          next
            case False
            from candidate_options_free [OF False _ distinct_fetch_group_words]
              Inr \<open>r = Some opts\<close>
            have "2 \<le> length ?words" "\<forall>(a, b) \<in> set opts. a \<noteq> b"
              by blast+
            with fo' False show ?thesis by auto
          qed
        qed
      qed
    qed
  qed
qed



lemma scan_groups_malformed:
  assumes "languages = Some ls" "ls \<noteq> []" "length ls \<noteq> 2"
    and "\<exists>gid \<in> set gids. fetch_group_words db gid \<noteq> []"
  shows "fst (scan_groups db languages rd gids g) = Inl ValueError"
  using assms(4)
proof (induction gids arbitrary: g)
  case Nil
  then show ?case by simp
next
  case (Cons x gids)
  show ?case
  proof (cases "fetch_group_words db x = []")
    case True
    with Cons show ?thesis by simp
  next
    case False
    with candidate_options_malformed [OF assms(1-3), of "fetch_group_words db x"]
    show ?thesis by simp
  qed
qed

lemma scan_groups_empty_languages:
  "scan_groups db (Some []) rd gids g = scan_groups db None rd gids g"
  by (induction gids arbitrary: g)
    (simp_all add: languages_given_def Let_def split: prod.splits option.splits)

lemma set_candidate_pool:
  "set (candidate_pool db s allowed) =
     {gid. gid \<in> set (fetch_set_group_ids db s) \<and> (\<forall>a. allowed = Some a \<longrightarrow> gid \<in> set a)}"
  by (cases allowed) (auto simp: candidate_pool_def)

lemma fetch_random_scan:
  "fst (fetch_random_group_and_direction db g s languages rd allowed) =
     (if candidate_pool db s allowed = [] then Inr None
      else fst (scan_groups db languages rd (fst (shuffle (candidate_pool db s allowed) g))
                  (snd (shuffle (candidate_pool db s allowed) g))))"
  by (simp add: fetch_random_group_and_direction_def Let_def split: prod.splits)

lemma generate_question_fetch:
  "fst (generate_question db g s languages rd allowed) =
     (case fst (fetch_random_group_and_direction db g s languages rd allowed) of
        Inl e \<Rightarrow> Inl e
      | Inr None \<Rightarrow> Inr None
      | Inr (Some (gid, slg, sw, tlg, tw)) \<Rightarrow>
          Inr (Some \<lparr>q_set_id = s, q_group_id = gid, q_source_language = slg,
                      q_source_word = sw, q_target_language = tlg, q_target_word = tw\<rparr>))"
  by (simp add: generate_question_def split: prod.splits sum.splits option.splits)

lemma fetch_random_Some:
  assumes "fst (fetch_random_group_and_direction db g s languages rd allowed) =
             Inr (Some (gid, slg, sw, tlg, tw))"
  shows "gid \<in> set (candidate_pool db s allowed) \<and>
     map_of (fetch_group_words db gid) slg = Some sw \<and>
     map_of (fetch_group_words db gid) tlg = Some tw \<and>
     (\<not> languages_given languages \<longrightarrow> slg \<noteq> tlg \<and> 2 \<le> length (fetch_group_words db gid)) \<and>
     (languages_given languages \<longrightarrow>
        (\<exists>l1 l2. languages = Some [l1, l2] \<and>
           ((slg, tlg) = (l1, l2) \<or> (rd \<and> (slg, tlg) = (l2, l1)))))"
proof -
  let ?pool = "candidate_pool db s allowed"
  from assms have "?pool \<noteq> []"
    by (auto simp: fetch_random_scan split: if_splits)
  with assms have "fst (scan_groups db languages rd (fst (shuffle ?pool g))
      (snd (shuffle ?pool g))) = Inr (Some (gid, slg, sw, tlg, tw))"
    by (simp add: fetch_random_scan)
  from scan_groups_Some [OF this] show ?thesis
    by (simp add: set_shuffle)
qed

lemma map_of_nonempty_word:
  "map_of words l = Some w \<Longrightarrow> \<forall>(l', w') \<in> set words. w' \<noteq> [] \<Longrightarrow> w \<noteq> []"
  by (auto dest: map_of_SomeD)

text \<open>
  C2, as amended. Whenever \<open>generate_question\<close> returns a question, it is the one built from
  the tuple that \<open>fetch_random_group_and_direction\<close> returns; its group belongs to the
  requested set, and to \<open>allowed_group_ids\<close> when that is given; its source and target
  languages are both populated in that group, and its source and target words are the
  words stored in that group for them. With no language constraint the group has at least
  two populated languages and the two languages differ. With a constraint, the constraint
  has two entries and the pair is the requested one, or the reversed one when the direction
  is random; so the languages differ when the two requested ones do. The words are not
  empty when no stored word of the group is.
\<close>

theorem select_returns_stored_pair:
  assumes "fst (generate_question db g s languages rd allowed) = Inr (Some q)"
  shows "fst (fetch_random_group_and_direction db g s languages rd allowed) =
       Inr (Some (q_group_id q, q_source_language q, q_source_word q,
                  q_target_language q, q_target_word q)) \<and>
     q_set_id q = s \<and>
     q_group_id q \<in> set (fetch_set_group_ids db s) \<and>
     (\<forall>a. allowed = Some a \<longrightarrow> q_group_id q \<in> set a) \<and>
     map_of (fetch_group_words db (q_group_id q)) (q_source_language q) =
       Some (q_source_word q) \<and>
     map_of (fetch_group_words db (q_group_id q)) (q_target_language q) =
       Some (q_target_word q) \<and>
     (\<not> languages_given languages \<longrightarrow>
        q_source_language q \<noteq> q_target_language q \<and>
        2 \<le> length (fetch_group_words db (q_group_id q))) \<and>
     (languages_given languages \<longrightarrow>
        (\<exists>l1 l2. languages = Some [l1, l2] \<and>
           ((q_source_language q, q_target_language q) = (l1, l2) \<or>
            (rd \<and> (q_source_language q, q_target_language q) = (l2, l1))))) \<and>
     (\<forall>l1 l2. languages = Some [l1, l2] \<and> l1 \<noteq> l2 \<longrightarrow>
        q_source_language q \<noteq> q_target_language q) \<and>
     ((\<forall>(l, w) \<in> set (fetch_group_words db (q_group_id q)). w \<noteq> []) \<longrightarrow>
        q_source_word q \<noteq> [] \<and> q_target_word q \<noteq> [])"
proof -
  let ?r = "fst (fetch_random_group_and_direction db g s languages rd allowed)"
  from assms obtain gid slg sw tlg tw where r: "?r = Inr (Some (gid, slg, sw, tlg, tw))"
    and q: "q = \<lparr>q_set_id = s, q_group_id = gid, q_source_language = slg,
                 q_source_word = sw, q_target_language = tlg, q_target_word = tw\<rparr>"
    unfolding generate_question_fetch
    by (auto split: sum.splits option.splits)
  note props = fetch_random_Some [OF r]
  from props have pool: "gid \<in> set (candidate_pool db s allowed)" by simp
  from props have src: "map_of (fetch_group_words db gid) slg = Some sw" by simp
  from props have tgt: "map_of (fetch_group_words db gid) tlg = Some tw" by simp
  from props have free: "\<not> languages_given languages \<longrightarrow>
      slg \<noteq> tlg \<and> 2 \<le> length (fetch_group_words db gid)" by simp
  from props have given: "languages_given languages \<longrightarrow>
      (\<exists>l1 l2. languages = Some [l1, l2] \<and>
         ((slg, tlg) = (l1, l2) \<or> (rd \<and> (slg, tlg) = (l2, l1))))" by simp
  have two: "\<forall>l1 l2. languages = Some [l1, l2] \<and> l1 \<noteq> l2 \<longrightarrow> slg \<noteq> tlg"
    using given by (auto simp: languages_given_def)
  have words: "(\<forall>(l, w) \<in> set (fetch_group_words db gid). w \<noteq> []) \<longrightarrow> sw \<noteq> [] \<and> tw \<noteq> []"
    using map_of_nonempty_word [OF src] map_of_nonempty_word [OF tgt] by blast
  from pool have member: "gid \<in> set (fetch_set_group_ids db s)"
    and allowed: "\<forall>a. allowed = Some a \<longrightarrow> gid \<in> set a"
    by (simp_all add: set_candidate_pool)
  show ?thesis
    unfolding q using r member allowed src tgt free given two words by simp
qed

text \<open>Values in the example databases.\<close>

lemma zero_rng_draw: "randbelow n zero_rng = (0, zero_rng)"
  by (simp add: randbelow_def zero_rng_def)

lemma shuffle_pair_zero: "shuffle [a, b] zero_rng = ([b, a], zero_rng)"
  by (simp add: shuffle_def zero_rng_draw)

lemma scenario_group_ids:
  "fetch_set_group_ids scenario_db 1 = [1, 2]" "fetch_set_group_ids scenario_db 2 = []"
  by (simp_all add: fetch_set_group_ids_def scenario_db_def)

lemma scenario_words:
  "fetch_group_words scenario_db 1 = [(''Swedish'', ''hund''), (''English'', ''dog'')]"
  "fetch_group_words scenario_db 2 = [(''Swedish'', ''katt''), (''English'', ''cat'')]"
  by (simp_all add: fetch_group_words_def dict_of_rows_def scenario_db_def)

lemma blank_values:
  "fetch_set_group_ids blank_db 1 = [1]"
  "fetch_group_words blank_db 1 = [(''Swedish'', []), (''English'', ''dog'')]"
  by (simp_all add: fetch_set_group_ids_def fetch_group_words_def dict_of_rows_def blank_db_def)

lemma scenario_question:
  "fst (generate_question scenario_db zero_rng 1 (Some [''Swedish'', ''English'']) False None) =
     Inr (Some \<lparr>q_set_id = 1, q_group_id = 2, q_source_language = ''Swedish'',
                 q_source_word = ''katt'', q_target_language = ''English'',
                 q_target_word = ''cat''\<rparr>)"
  by (simp add: generate_question_fetch fetch_random_scan candidate_pool_def
      scenario_group_ids scenario_words shuffle_pair_zero shuffle_singleton languages_given_def)

lemma scenario_free_question:
  "fst (generate_question scenario_db zero_rng 1 None False None) =
     Inr (Some \<lparr>q_set_id = 1, q_group_id = 2, q_source_language = ''English'',
                 q_source_word = ''cat'', q_target_language = ''Swedish'',
                 q_target_word = ''katt''\<rparr>)"
  by (simp add: generate_question_fetch fetch_random_scan candidate_pool_def
      scenario_group_ids scenario_words shuffle_pair_zero shuffle_singleton languages_given_def)

text \<open>
  With the languages Swedish and English the lesson of the scenarios gives, for the zero
  random source, the pair \<open>katt\<close>, \<open>cat\<close> of group 2; with no language constraint it gives
  the pair \<open>cat\<close>, \<open>katt\<close> of the same group, whose languages differ and whose words are
  not empty, as no stored word of the group is.
\<close>

theorem select_returns_stored_pair_witness:
  "fst (generate_question scenario_db zero_rng 1 (Some [''Swedish'', ''English'']) False None) =
     Inr (Some \<lparr>q_set_id = 1, q_group_id = 2, q_source_language = ''Swedish'',
                 q_source_word = ''katt'', q_target_language = ''English'',
                 q_target_word = ''cat''\<rparr>) \<and>
   fst (fetch_random_group_and_direction scenario_db zero_rng 1
          (Some [''Swedish'', ''English'']) False None) =
     Inr (Some (2, ''Swedish'', ''katt'', ''English'', ''cat'')) \<and>
   (2::int) \<in> set (fetch_set_group_ids scenario_db 1) \<and>
   map_of (fetch_group_words scenario_db 2) ''Swedish'' = Some ''katt'' \<and>
   map_of (fetch_group_words scenario_db 2) ''English'' = Some ''cat'' \<and>
   languages_given (Some [''Swedish'', ''English'']) \<and>
   fst (generate_question scenario_db zero_rng 1 None False None) =
     Inr (Some \<lparr>q_set_id = 1, q_group_id = 2, q_source_language = ''English'',
                 q_source_word = ''cat'', q_target_language = ''Swedish'',
                 q_target_word = ''katt''\<rparr>) \<and>
   fst (fetch_random_group_and_direction scenario_db zero_rng 1 None False None) =
     Inr (Some (2, ''English'', ''cat'', ''Swedish'', ''katt'')) \<and>
   \<not> languages_given None \<and>
   2 \<le> length (fetch_group_words scenario_db 2) \<and>
   fetch_group_words scenario_db 2 = [(''Swedish'', ''katt''), (''English'', ''cat'')]"
  using select_returns_stored_pair [OF scenario_question] scenario_question
    select_returns_stored_pair [OF scenario_free_question] scenario_free_question
  by (simp add: languages_given_def scenario_words)

text \<open>
  The claim as it stands fails in two ways. Asked for the pair English, English, the lesson
  of the scenarios gives a question from English to English. And the group with an empty
  Swedish word is returned, with the empty word as the target.
\<close>

theorem select_distinct_nonempty_counterexample:
  "fst (generate_question scenario_db zero_rng 1 (Some [''English'', ''English'']) False None) =
     Inr (Some \<lparr>q_set_id = 1, q_group_id = 2, q_source_language = ''English'',
                 q_source_word = ''cat'', q_target_language = ''English'',
                 q_target_word = ''cat''\<rparr>) \<and>
   fst (generate_question blank_db zero_rng 1 None False None) =
     Inr (Some \<lparr>q_set_id = 1, q_group_id = 1, q_source_language = ''English'',
                 q_source_word = ''dog'', q_target_language = ''Swedish'',
                 q_target_word = []\<rparr>)"
  by (simp add: generate_question_fetch fetch_random_scan candidate_pool_def
      scenario_group_ids scenario_words blank_values shuffle_pair_zero shuffle_singleton
      languages_given_def)

subsection \<open>No question\<close>



subsection \<open>Malformed language lists\<close>

text \<open>
  C7, as amended. A language list with at least one entry and not exactly two makes
  \<open>fetch_random_group_and_direction\<close>, and so \<open>generate_question\<close>, raise \<open>ValueError\<close>
  whenever some candidate group has at least one word; and the empty list is treated as
  no list at all.
\<close>

theorem malformed_languages_ValueError:
  "(languages = Some ls \<and> ls \<noteq> [] \<and> length ls \<noteq> 2 \<and>
    gid \<in> set (candidate_pool db s allowed) \<and> fetch_group_words db gid \<noteq> [] \<longrightarrow>
      fst (fetch_random_group_and_direction db g s languages rd allowed) = Inl ValueError \<and>
      fst (generate_question db g s languages rd allowed) = Inl ValueError) \<and>
   fetch_random_group_and_direction db g s (Some []) rd allowed =
     fetch_random_group_and_direction db g s None rd allowed \<and>
   generate_question db g s (Some []) rd allowed = generate_question db g s None rd allowed"
proof -
  let ?pool = "candidate_pool db s allowed"
  have raise: "fst (fetch_random_group_and_direction db g s languages rd allowed) = Inl ValueError"
    if "languages = Some ls" "ls \<noteq> []" "length ls \<noteq> 2" "gid \<in> set ?pool"
      "fetch_group_words db gid \<noteq> []"
  proof -
    from that have "?pool \<noteq> []" by auto
    moreover from that have "\<exists>gid \<in> set (fst (shuffle ?pool g)). fetch_group_words db gid \<noteq> []"
      unfolding set_shuffle by blast
    ultimately show ?thesis
      using scan_groups_malformed [OF that(1-3)] by (simp add: fetch_random_scan)
  qed
  have same: "fetch_random_group_and_direction db g s (Some []) rd allowed =
      fetch_random_group_and_direction db g s None rd allowed"
    by (simp add: fetch_random_group_and_direction_def scan_groups_empty_languages Let_def
        split: prod.splits)
  have same': "generate_question db g s (Some []) rd allowed =
      generate_question db g s None rd allowed"
    by (simp add: generate_question_def same)
  show ?thesis
    using raise same same' by (simp add: generate_question_fetch)
qed

text \<open>A list of one language, for the lesson of the scenarios.\<close>

theorem malformed_languages_ValueError_witness:
  "(1::int) \<in> set (candidate_pool scenario_db 1 None) \<and>
   fetch_group_words scenario_db 1 \<noteq> [] \<and>
   fst (fetch_random_group_and_direction scenario_db zero_rng 1 (Some [''Swedish'']) False None) =
     Inl ValueError \<and>
   fst (generate_question scenario_db zero_rng 1 (Some [''Swedish'']) False None) =
     Inl ValueError"
  using malformed_languages_ValueError
    [of "Some [''Swedish'']" "[''Swedish'']" 1 scenario_db 1 None zero_rng False]
  by (simp add: candidate_pool_def scenario_group_ids scenario_words)

text \<open>
  The claim as it stands fails: the empty list is a list without exactly two entries, and
  the lesson of the scenarios answers it with a question; and a list of one language, asked
  of the set without groups, gives no question and no error.
\<close>

theorem malformed_languages_counterexample:
  "fst (generate_question scenario_db zero_rng 1 (Some []) False None) =
     Inr (Some \<lparr>q_set_id = 1, q_group_id = 2, q_source_language = ''English'',
                 q_source_word = ''cat'', q_target_language = ''Swedish'',
                 q_target_word = ''katt''\<rparr>) \<and>
   fst (generate_question scenario_db zero_rng 2 (Some [''Swedish'']) False None) = Inr None"
  by (simp add: generate_question_fetch fetch_random_scan candidate_pool_def
      scenario_group_ids scenario_words shuffle_pair_zero shuffle_singleton
      languages_given_def)

subsection \<open>Distractors\<close>

lemma collect_distractors_distinct:
  "distinct acc \<Longrightarrow> distinct (collect_distractors db tlg n gids acc)"
  by (induction gids arbitrary: acc) (auto simp: Let_def split: option.splits)

lemma collect_distractors_subset:
  "set (collect_distractors db tlg n gids acc) \<subseteq>
     set acc \<union> {w. \<exists>gid \<in> set gids. map_of (fetch_group_words db gid) tlg = Some w}"
proof (induction gids arbitrary: acc)
  case Nil
  then show ?case by simp
next
  case (Cons x gids)
  let ?acc' = "case map_of (fetch_group_words db x) tlg of
                 Some w \<Rightarrow> if w \<notin> set acc then acc @ [w] else acc
               | None \<Rightarrow> acc"
  have step: "set ?acc' \<subseteq> set acc \<union> {w. map_of (fetch_group_words db x) tlg = Some w}"
    by (auto split: option.splits)
  show ?case
  proof (cases "n \<le> int (length ?acc')")
    case True
    then have "collect_distractors db tlg n (x # gids) acc = ?acc'"
      by (simp add: Let_def)
    with step show ?thesis by auto
  next
    case False
    then have "collect_distractors db tlg n (x # gids) acc =
        collect_distractors db tlg n gids ?acc'"
      by (simp add: Let_def)
    with Cons.IH [of ?acc'] step show ?thesis by auto
  qed
qed

lemma collect_distractors_length:
  "int (length acc) < n \<Longrightarrow> int (length (collect_distractors db tlg n gids acc)) \<le> n"
proof (induction gids arbitrary: acc)
  case Nil
  then show ?case by simp
next
  case (Cons x gids)
  let ?acc' = "case map_of (fetch_group_words db x) tlg of
                 Some w \<Rightarrow> if w \<notin> set acc then acc @ [w] else acc
               | None \<Rightarrow> acc"
  have step: "int (length ?acc') \<le> n"
    using Cons.prems by (auto split: option.splits)
  show ?case
  proof (cases "n \<le> int (length ?acc')")
    case True
    then have "collect_distractors db tlg n (x # gids) acc = ?acc'"
      by (simp add: Let_def)
    with step show ?thesis by simp
  next
    case False
    then have eq: "collect_distractors db tlg n (x # gids) acc =
        collect_distractors db tlg n gids ?acc'"
      by (simp add: Let_def)
    from False have "int (length ?acc') < n" by simp
    from Cons.IH [OF this] eq show ?thesis by simp
  qed
qed

lemma collect_distractors_all:
  "int (length (collect_distractors db tlg n gids acc)) < n \<Longrightarrow>
   set acc \<union> {w. \<exists>gid \<in> set gids. map_of (fetch_group_words db gid) tlg = Some w} \<subseteq>
     set (collect_distractors db tlg n gids acc)"
proof (induction gids arbitrary: acc)
  case Nil
  then show ?case by simp
next
  case (Cons x gids)
  let ?acc' = "case map_of (fetch_group_words db x) tlg of
                 Some w \<Rightarrow> if w \<notin> set acc then acc @ [w] else acc
               | None \<Rightarrow> acc"
  have step: "set acc \<union> {w. map_of (fetch_group_words db x) tlg = Some w} \<subseteq> set ?acc'"
    by (auto split: option.splits)
  show ?case
  proof (cases "n \<le> int (length ?acc')")
    case True
    then have "collect_distractors db tlg n (x # gids) acc = ?acc'"
      by (simp add: Let_def)
    with Cons.prems True show ?thesis by simp
  next
    case False
    then have eq: "collect_distractors db tlg n (x # gids) acc =
        collect_distractors db tlg n gids ?acc'"
      by (simp add: Let_def)
    with Cons.prems have "int (length (collect_distractors db tlg n gids ?acc')) < n"
      by simp
    from Cons.IH [OF this] step eq show ?thesis by auto
  qed
qed

text \<open>
  What \<open>get_distractors\<close> does when at least one word is asked for: it returns at most
  \<open>num_choices\<close> words, no word twice, each the target-language word of a group of the set
  other than the excluded one; and when it returns fewer than \<open>num_choices\<close> words, these
  are all such words.
\<close>

lemma get_distractors_positive:
  assumes "1 \<le> n"
  shows "int (length (fst (get_distractors db g s ex tlg n))) \<le> n \<and>
     distinct (fst (get_distractors db g s ex tlg n)) \<and>
     set (fst (get_distractors db g s ex tlg n)) \<subseteq>
       {w. \<exists>gid \<in> set (fetch_set_group_ids db s).
             gid \<noteq> ex \<and> map_of (fetch_group_words db gid) tlg = Some w} \<and>
     (int (length (fst (get_distractors db g s ex tlg n))) < n \<longrightarrow>
        set (fst (get_distractors db g s ex tlg n)) =
          {w. \<exists>gid \<in> set (fetch_set_group_ids db s).
                gid \<noteq> ex \<and> map_of (fetch_group_words db gid) tlg = Some w})"
proof -
  let ?gids = "fst (shuffle [gid \<leftarrow> fetch_set_group_ids db s. gid \<noteq> ex] g)"
  have res: "fst (get_distractors db g s ex tlg n) = collect_distractors db tlg n ?gids []"
    by (simp add: get_distractors_def Let_def split: prod.splits)
  have gids: "set ?gids = {gid. gid \<in> set (fetch_set_group_ids db s) \<and> gid \<noteq> ex}"
    by (simp add: set_shuffle)
  have words: "{w. \<exists>gid \<in> set ?gids. map_of (fetch_group_words db gid) tlg = Some w} =
      {w. \<exists>gid \<in> set (fetch_set_group_ids db s).
            gid \<noteq> ex \<and> map_of (fetch_group_words db gid) tlg = Some w}"
    unfolding gids by auto
  have len: "int (length (collect_distractors db tlg n ?gids [])) \<le> n"
    using assms by (intro collect_distractors_length) simp
  have dist: "distinct (collect_distractors db tlg n ?gids [])"
    by (intro collect_distractors_distinct) simp
  have sub: "set (collect_distractors db tlg n ?gids []) \<subseteq>
      {w. \<exists>gid \<in> set ?gids. map_of (fetch_group_words db gid) tlg = Some w}"
    using collect_distractors_subset [of db tlg n ?gids "[]"] by simp
  have sup: "{w. \<exists>gid \<in> set ?gids. map_of (fetch_group_words db gid) tlg = Some w} \<subseteq>
      set (collect_distractors db tlg n ?gids [])"
    if "int (length (collect_distractors db tlg n ?gids [])) < n"
    using collect_distractors_all [OF that] by simp
  show ?thesis
    unfolding res using len dist sub sup unfolding words by blast
qed

text \<open>
  C8. Asked for zero distractors, \<open>get_distractors\<close> returns one: for the lesson of the
  scenarios, the excluded group 1 and the target language English, and every random source,
  the result is the word of group 2, a list longer than \<open>num_choices\<close>. The word is appended
  before the length is compared with \<open>num_choices\<close>.
\<close>

theorem get_distractors_zero_choices:
  "fst (get_distractors scenario_db g 1 1 ''English'' 0) = [''cat''] \<and>
   int (length (fst (get_distractors scenario_db g 1 1 ''English'' 0))) > 0"
  by (simp add: get_distractors_def scenario_group_ids scenario_words shuffle_singleton)

subsection \<open>A distractor equal to the correct word\<close>

lemma homonym_values:
  "fetch_set_group_ids homonym_db 1 = [1, 2]"
  "fetch_group_words homonym_db 1 = [(''Swedish'', ''hej''), (''English'', ''hello'')]"
  "fetch_group_words homonym_db 2 = [(''Swedish'', ''halla''), (''English'', ''hello'')]"
  by (simp_all add: fetch_set_group_ids_def fetch_group_words_def dict_of_rows_def
      homonym_db_def)

lemma count_list_shuffle: "count_list (fst (shuffle xs g)) x = count_list xs x"
  using mset_shuffle [of xs g] by (metis count_mset)

text \<open>
  C10. In the lesson with two groups that share their English word, the question drawn for
  the zero random source is that of group 2, from Swedish to English, with the target word
  \<open>hello\<close>. For every random source the distractors for it, which exclude group 2 only, are
  the one word \<open>hello\<close> of group 1, equal to the correct answer; and the options built from
  them hold the correct word twice.
\<close>

theorem distractor_equals_correct_word:
  "fst (generate_question homonym_db zero_rng 1 (Some [''Swedish'', ''English'']) False None) =
     Inr (Some \<lparr>q_set_id = 1, q_group_id = 2, q_source_language = ''Swedish'',
                 q_source_word = ''halla'', q_target_language = ''English'',
                 q_target_word = ''hello''\<rparr>) \<and>
   fst (get_distractors homonym_db g 1 2 ''English'' 3) = [''hello''] \<and>
   count_list
     (fst (choice_options homonym_db g 1
        \<lparr>q_set_id = 1, q_group_id = 2, q_source_language = ''Swedish'',
          q_source_word = ''halla'', q_target_language = ''English'',
          q_target_word = ''hello''\<rparr>)) ''hello'' = 2"
proof -
  have q: "fst (generate_question homonym_db zero_rng 1 (Some [''Swedish'', ''English''])
       False None) =
     Inr (Some \<lparr>q_set_id = 1, q_group_id = 2, q_source_language = ''Swedish'',
                 q_source_word = ''halla'', q_target_language = ''English'',
                 q_target_word = ''hello''\<rparr>)"
    by (simp add: generate_question_fetch fetch_random_scan candidate_pool_def
        homonym_values shuffle_pair_zero shuffle_singleton languages_given_def)
  have d: "get_distractors homonym_db g 1 2 ''English'' 3 = ([''hello''], g)"
    by (simp add: get_distractors_def homonym_values shuffle_singleton)
  have c: "count_list
     (fst (choice_options homonym_db g 1
        \<lparr>q_set_id = 1, q_group_id = 2, q_source_language = ''Swedish'',
          q_source_word = ''halla'', q_target_language = ''English'',
          q_target_word = ''hello''\<rparr>)) ''hello'' = 2"
    by (simp add: choice_options_def d count_list_shuffle)
  from q d c show ?thesis by simp
qed

subsection \<open>The answer step\<close>

lemma quiz_question_post_Drawn:
  assumes "quiz_question_post t1 t2 g db uid s (Some st) current_q form = Drawn db' st' r g'"
  shows "st_set_id st = s \<and>
     db' = (case current_q of
              None \<Rightarrow> db
            | Some cq \<Rightarrow>
                (case uid of
                   None \<Rightarrow> db
                 | Some u \<Rightarrow>
                     if u \<noteq> 0
                     then update_user_progress t1 db u (cq_group_id cq)
                            (graded_correct (st_mode st) form current_q)
                     else db)) \<and>
     st_answers st' =
       (case current_q of
          None \<Rightarrow> st_answers st
        | Some cq \<Rightarrow>
            st_answers st @
              [\<lparr>ae_group_id = cq_group_id cq, ae_from_lang = cq_src_lang cq,
                ae_to_lang = cq_tgt_lang cq,
                ae_correct = graded_correct (st_mode st) form current_q\<rparr>]) \<and>
     st_total st' = st_total st + 1 \<and>
     st_score st' =
       st_score st + (if graded_correct (st_mode st) form current_q then 1 else 0) \<and>
     st_allowed_groups st' =
       (if st_spaced st then recomputed_allowed t2 db' s uid (st_problem_only st)
        else st_allowed_groups st) \<and>
     (r, g') = generate_question db' g s (st_selected_langs st) (st_random_dir st)
                 (st_allowed_groups st')"
  using assms
  by (cases current_q)
    (auto simp: quiz_question_post_def Let_def split: if_splits prod.splits)

lemma recomputed_allowed_nonempty: "recomputed_allowed now db s uid p \<noteq> Some []"
  by (auto simp: recomputed_allowed_def Let_def split: option.splits if_splits)

lemma recomputed_allowed_user:
  "u \<noteq> 0 \<Longrightarrow>
   recomputed_allowed now db s (Some u) p =
     (let due = get_due_groups now db s u;
          recomputed =
            (if p then [gid \<leftarrow> due. gid \<in> set (get_problematic_groups now db s (7 / 10) None None)]
             else due)
      in if recomputed = [] then None else Some recomputed)"
  by (simp add: recomputed_allowed_def Let_def)

lemma recomputed_allowed_no_user:
  "uid = None \<or> uid = Some 0 \<Longrightarrow>
   recomputed_allowed now db s uid p =
     (if p then
        (let prob = get_problematic_groups now db s (7 / 10) None None
         in if prob = [] then None else Some prob)
      else None)"
  by (auto simp: recomputed_allowed_def Let_def)

lemma update_user_progress_tables:
  "t_set_groups (update_user_progress now db u gid c) = t_set_groups db"
  "t_vocab_items (update_user_progress now db u gid c) = t_vocab_items db"
  "t_languages (update_user_progress now db u gid c) = t_languages db"
  by (simp_all add: update_user_progress_def Let_def split: option.splits)

lemma update_user_progress_fetch:
  "fetch_set_group_ids (update_user_progress now db u gid c) s = fetch_set_group_ids db s"
  "fetch_group_words (update_user_progress now db u gid c) gid' = fetch_group_words db gid'"
  by (simp_all add: fetch_set_group_ids_def fetch_group_words_def update_user_progress_tables
      cong: if_cong)

lemma text_values:
  "strip '' Dog '' = ''Dog''" "strip '' dog'' = ''dog''" "strip ''dog'' = ''dog''"
  "lower ''Dog'' = ''dog''" "lower ''dog'' = ''dog''"
  by code_simp+

text \<open>
  Beyond ASCII: the capital \<open>A\<close> with diaeresis (196) has the lower case 228, the
  multiplication sign (215) and the sharp s (223) are their own lower case, and the
  no-break space (160) and next line (133) are stripped.
\<close>

lemma latin1_text_values:
  "lower [CHR 0xC4, CHR 0xD6, CHR 0xD1, CHR 0xDE] = [CHR 0xE4, CHR 0xF6, CHR 0xF1, CHR 0xFE]"
  "lower [CHR 0xD7, CHR 0xDF, CHR 0xB5, CHR 0xFF] = [CHR 0xD7, CHR 0xDF, CHR 0xB5, CHR 0xFF]"
  "strip [CHR 0xA0, CHR 0xC4, CHR 0x85] = [CHR 0xC4]"
  by code_simp+

lemma graded_capital_diaeresis:
  "graded_correct ''typed'' [''answer'' \<mapsto> [CHR 0xA0, CHR 0xC4]]
     (Some (hund_question\<lparr>cq_tgt_word := [CHR 0xE4]\<rparr>))"
proof -
  have "strip [CHR 0xA0, CHR 0xC4] = [CHR 0xC4]" "lower [CHR 0xC4] = [CHR 0xE4]"
    "lower [CHR 0xE4] = [CHR 0xE4]"
    by code_simp+
  then show ?thesis
    by (simp add: graded_correct_def form_get_def)
qed

lemma timedelta_late: "\<not> 10 + timedelta_days 2 \<le> 20"
  by (simp add: timedelta_days_def microseconds_per_day_def)

lemma scenario_progress:
  "t_user_progress (update_user_progress 10 scenario_db 1 1 True) (1, 1) =
     Some \<lparr>box = 1, due_date = 10 + timedelta_days 2\<rparr>"
  "t_user_progress (update_user_progress 10 scenario_db 1 1 True) (1, 2) = None"
  "t_user_progress (update_user_progress 10 scenario_db 1 2 True) (1, 1) = None"
  "t_user_progress (update_user_progress 10 scenario_db 1 2 True) (1, 2) =
     Some \<lparr>box = 1, due_date = 10 + timedelta_days 2\<rparr>"
  by (simp_all add: update_user_progress_def scenario_db_def)

lemma due_after_first_answer:
  "get_due_groups 20 (update_user_progress 10 scenario_db 1 1 True) 1 1 = [2]"
  by (simp add: get_due_groups_filter update_user_progress_fetch scenario_group_ids
      scenario_progress timedelta_late)

lemma both_progress:
  "t_user_progress
     (update_user_progress 10 (update_user_progress 10 scenario_db 1 2 True) 1 1 True) (1, 1) =
     Some \<lparr>box = 1, due_date = 10 + timedelta_days 2\<rparr>"
  "t_user_progress
     (update_user_progress 10 (update_user_progress 10 scenario_db 1 2 True) 1 1 True) (1, 2) =
     Some \<lparr>box = 1, due_date = 10 + timedelta_days 2\<rparr>"
  by (simp_all add: update_user_progress_def scenario_db_def)

lemma due_after_both_answers:
  "get_due_groups 20
     (update_user_progress 10 (update_user_progress 10 scenario_db 1 2 True) 1 1 True) 1 1 = []"
  by (simp add: get_due_groups_filter update_user_progress_fetch scenario_group_ids
      both_progress timedelta_late)

lemma graded_Dog:
  "graded_correct ''typed'' [''answer'' \<mapsto> '' Dog ''] (Some hund_question)"
  by (simp add: graded_correct_def form_get_def hund_question_def text_values)

lemma katt_after_one:
  "scan_groups (update_user_progress t scenario_db u g c)
     (Some [''Swedish'', ''English'']) False (2 # rest) zero_rng =
     (Inr (Some (2, ''Swedish'', ''katt'', ''English'', ''cat'')), zero_rng)"
  by (simp add: update_user_progress_fetch scenario_words shuffle_singleton
      languages_given_def Let_def)

lemma katt_after_two:
  "scan_groups (update_user_progress t (update_user_progress t' scenario_db u' g' c') u g c)
     (Some [''Swedish'', ''English'']) False (2 # rest) zero_rng =
     (Inr (Some (2, ''Swedish'', ''katt'', ''English'', ''cat'')), zero_rng)"
  by (simp add: update_user_progress_fetch scenario_words shuffle_singleton
      languages_given_def Let_def)

lemma first_step:
  "quiz_question_post 10 20 zero_rng scenario_db (Some 1) 1 (Some typed_session)
     (Some hund_question) [''answer'' \<mapsto> '' Dog ''] =
   Drawn (update_user_progress 10 scenario_db 1 1 True)
     (typed_session
        \<lparr>st_allowed_groups := Some [2], st_score := 1, st_total := 1,
          st_answers := [\<lparr>ae_group_id = 1, ae_from_lang = ''Swedish'',
                           ae_to_lang = ''English'', ae_correct = True\<rparr>]\<rparr>)
     (Inr (Some \<lparr>q_set_id = 1, q_group_id = 2, q_source_language = ''Swedish'',
                  q_source_word = ''katt'', q_target_language = ''English'',
                  q_target_word = ''cat''\<rparr>))
     zero_rng"
proof -
  have allowed: "recomputed_allowed 20 (update_user_progress 10 scenario_db 1 1 True) 1 (Some 1)
      False = Some [2]"
    by (simp add: recomputed_allowed_user due_after_first_answer)
  have draw: "generate_question (update_user_progress 10 scenario_db 1 1 True) zero_rng 1
      (Some [''Swedish'', ''English'']) False (Some [2]) =
     (Inr (Some \<lparr>q_set_id = 1, q_group_id = 2, q_source_language = ''Swedish'',
                  q_source_word = ''katt'', q_target_language = ''English'',
                  q_target_word = ''cat''\<rparr>), zero_rng)"
    by (simp add: generate_question_def fetch_random_group_and_direction_def candidate_pool_def
        update_user_progress_fetch scenario_group_ids shuffle_singleton katt_after_one Let_def
        del: scan_groups.simps)
  have graded: "graded_correct (st_mode typed_session) [''answer'' \<mapsto> '' Dog '']
      (Some hund_question)"
    using graded_Dog by (simp add: typed_session_def)
  show ?thesis
    unfolding quiz_question_post_def
    by (simp add: graded Let_def)
      (simp add: typed_session_def hund_question_def allowed draw)
qed

lemma relaxed_step:
  "quiz_question_post 10 20 zero_rng (update_user_progress 10 scenario_db 1 2 True) (Some 1) 1
     (Some typed_session) (Some hund_question) [''answer'' \<mapsto> '' Dog ''] =
   Drawn (update_user_progress 10 (update_user_progress 10 scenario_db 1 2 True) 1 1 True)
     (typed_session
        \<lparr>st_allowed_groups := None, st_score := 1, st_total := 1,
          st_answers := [\<lparr>ae_group_id = 1, ae_from_lang = ''Swedish'',
                           ae_to_lang = ''English'', ae_correct = True\<rparr>]\<rparr>)
     (Inr (Some \<lparr>q_set_id = 1, q_group_id = 2, q_source_language = ''Swedish'',
                  q_source_word = ''katt'', q_target_language = ''English'',
                  q_target_word = ''cat''\<rparr>))
     zero_rng"
proof -
  let ?db = "update_user_progress 10 (update_user_progress 10 scenario_db 1 2 True) 1 1 True"
  have allowed: "recomputed_allowed 20 ?db 1 (Some 1) False = None"
    by (simp add: recomputed_allowed_user due_after_both_answers)
  have draw: "generate_question ?db zero_rng 1 (Some [''Swedish'', ''English'']) False None =
     (Inr (Some \<lparr>q_set_id = 1, q_group_id = 2, q_source_language = ''Swedish'',
                  q_source_word = ''katt'', q_target_language = ''English'',
                  q_target_word = ''cat''\<rparr>), zero_rng)"
    by (simp add: generate_question_def fetch_random_group_and_direction_def candidate_pool_def
        update_user_progress_fetch scenario_group_ids shuffle_pair_zero katt_after_two Let_def
        del: scan_groups.simps)
  have graded: "graded_correct (st_mode typed_session) [''answer'' \<mapsto> '' Dog '']
      (Some hund_question)"
    using graded_Dog by (simp add: typed_session_def)
  show ?thesis
    unfolding quiz_question_post_def
    by (simp add: graded Let_def)
      (simp add: typed_session_def hund_question_def allowed draw)
qed

text \<open>
  C5. In an answer step of a session with spaced repetition, the restriction stored for the
  next draw is computed anew on the database as the progress update of this answer left
  it: for a logged-in user, the due groups, kept when they are also problematic if
  \<open>problem_only\<close> is set; an empty result is replaced by \<open>None\<close>, so the stored restriction
  is never the empty list; and the next question is drawn with the stored restriction, so
  from the whole set when the result was empty. Without a user the result is the
  problematic groups, or no restriction, with the same replacement.
\<close>

theorem spaced_restriction_relaxed:
  assumes "quiz_question_post t1 t2 g db uid s (Some st) current_q form = Drawn db' st' r g'"
    and "st_spaced st"
  shows "st_allowed_groups st' \<noteq> Some [] \<and>
     (r, g') = generate_question db' g s (st_selected_langs st) (st_random_dir st)
                 (st_allowed_groups st') \<and>
     (\<forall>u. uid = Some u \<and> u \<noteq> 0 \<longrightarrow>
        (let due = get_due_groups t2 db' s u;
             recomputed =
               (if st_problem_only st
                then [gid \<leftarrow> due. gid \<in> set (get_problematic_groups t2 db' s (7 / 10) None None)]
                else due)
         in st_allowed_groups st' = (if recomputed = [] then None else Some recomputed) \<and>
            (recomputed = [] \<longrightarrow>
               (r, g') = generate_question db' g s (st_selected_langs st) (st_random_dir st)
                           None))) \<and>
     (uid = None \<or> uid = Some 0 \<longrightarrow>
        st_allowed_groups st' =
          (if st_problem_only st then
             (let prob = get_problematic_groups t2 db' s (7 / 10) None None
              in if prob = [] then None else Some prob)
           else None)) \<and>
     (\<forall>u cq. uid = Some u \<and> u \<noteq> 0 \<and> current_q = Some cq \<longrightarrow>
        db' = update_user_progress t1 db u (cq_group_id cq)
                (graded_correct (st_mode st) form current_q))"
proof -
  note post = quiz_question_post_Drawn [OF assms(1)]
  from post assms(2) have stored:
    "st_allowed_groups st' = recomputed_allowed t2 db' s uid (st_problem_only st)"
    by simp
  from post have draw: "(r, g') =
      generate_question db' g s (st_selected_langs st) (st_random_dir st) (st_allowed_groups st')"
    by simp
  have nonempty: "st_allowed_groups st' \<noteq> Some []"
    unfolding stored by (rule recomputed_allowed_nonempty)
  have user: "let due = get_due_groups t2 db' s u;
             recomputed =
               (if st_problem_only st
                then [gid \<leftarrow> due. gid \<in> set (get_problematic_groups t2 db' s (7 / 10) None None)]
                else due)
         in st_allowed_groups st' = (if recomputed = [] then None else Some recomputed) \<and>
            (recomputed = [] \<longrightarrow>
               (r, g') = generate_question db' g s (st_selected_langs st) (st_random_dir st)
                           None)"
    if "uid = Some u \<and> u \<noteq> 0" for u
  proof -
    from that have "st_allowed_groups st' =
        (let due = get_due_groups t2 db' s u;
             recomputed =
               (if st_problem_only st
                then [gid \<leftarrow> due. gid \<in> set (get_problematic_groups t2 db' s (7 / 10) None None)]
                else due)
         in if recomputed = [] then None else Some recomputed)"
      unfolding stored using recomputed_allowed_user [of u t2 db' s "st_problem_only st"]
      by simp
    with draw show ?thesis
      by (simp add: Let_def)
  qed
  have no_user: "st_allowed_groups st' =
          (if st_problem_only st then
             (let prob = get_problematic_groups t2 db' s (7 / 10) None None
              in if prob = [] then None else Some prob)
           else None)"
    if "uid = None \<or> uid = Some 0"
    unfolding stored using that by (rule recomputed_allowed_no_user)
  have updated: "db' = update_user_progress t1 db u (cq_group_id cq)
                (graded_correct (st_mode st) form current_q)"
    if "uid = Some u \<and> u \<noteq> 0 \<and> current_q = Some cq" for u cq
    using post that by simp
  from user have user': "\<forall>u. uid = Some u \<and> u \<noteq> 0 \<longrightarrow>
        (let due = get_due_groups t2 db' s u;
             recomputed =
               (if st_problem_only st
                then [gid \<leftarrow> due. gid \<in> set (get_problematic_groups t2 db' s (7 / 10) None None)]
                else due)
         in st_allowed_groups st' = (if recomputed = [] then None else Some recomputed) \<and>
            (recomputed = [] \<longrightarrow>
               (r, g') = generate_question db' g s (st_selected_langs st) (st_random_dir st)
                           None))"
    by (intro allI impI)
  from no_user have no_user': "uid = None \<or> uid = Some 0 \<longrightarrow>
        st_allowed_groups st' =
          (if st_problem_only st then
             (let prob = get_problematic_groups t2 db' s (7 / 10) None None
              in if prob = [] then None else Some prob)
           else None)"
    by (rule impI)
  from updated have updated': "\<forall>u cq. uid = Some u \<and> u \<noteq> 0 \<and> current_q = Some cq \<longrightarrow>
        db' = update_user_progress t1 db u (cq_group_id cq)
                (graded_correct (st_mode st) form current_q)"
    by (intro allI impI)
  from nonempty draw user' no_user' updated' show ?thesis
    by (intro conjI)
qed

text \<open>
  User 1 has answered group 2 before and now answers group 1: ten microseconds later no
  group of the lesson is due, the stored restriction is \<open>None\<close> and not the empty list, and
  the next question is that of group 2, drawn from the whole set.
\<close>

theorem spaced_restriction_relaxed_witness:
  "quiz_question_post 10 20 zero_rng (update_user_progress 10 scenario_db 1 2 True) (Some 1) 1
     (Some typed_session) (Some hund_question) [''answer'' \<mapsto> '' Dog ''] =
   Drawn (update_user_progress 10 (update_user_progress 10 scenario_db 1 2 True) 1 1 True)
     (typed_session
        \<lparr>st_allowed_groups := None, st_score := 1, st_total := 1,
          st_answers := [\<lparr>ae_group_id = 1, ae_from_lang = ''Swedish'',
                           ae_to_lang = ''English'', ae_correct = True\<rparr>]\<rparr>)
     (Inr (Some \<lparr>q_set_id = 1, q_group_id = 2, q_source_language = ''Swedish'',
                  q_source_word = ''katt'', q_target_language = ''English'',
                  q_target_word = ''cat''\<rparr>))
     zero_rng \<and>
   st_spaced typed_session \<and>
   get_due_groups 20
     (update_user_progress 10 (update_user_progress 10 scenario_db 1 2 True) 1 1 True) 1 1 = [] \<and>
   st_allowed_groups
     (typed_session
        \<lparr>st_allowed_groups := None, st_score := 1, st_total := 1,
          st_answers := [\<lparr>ae_group_id = 1, ae_from_lang = ''Swedish'',
                           ae_to_lang = ''English'', ae_correct = True\<rparr>]\<rparr>) \<noteq> Some [] \<and>
   generate_question
     (update_user_progress 10 (update_user_progress 10 scenario_db 1 2 True) 1 1 True)
     zero_rng 1 (st_selected_langs typed_session) (st_random_dir typed_session)
     (st_allowed_groups
        (typed_session
           \<lparr>st_allowed_groups := None, st_score := 1, st_total := 1,
             st_answers := [\<lparr>ae_group_id = 1, ae_from_lang = ''Swedish'',
                              ae_to_lang = ''English'', ae_correct = True\<rparr>]\<rparr>)) =
     (Inr (Some \<lparr>q_set_id = 1, q_group_id = 2, q_source_language = ''Swedish'',
                  q_source_word = ''katt'', q_target_language = ''English'',
                  q_target_word = ''cat''\<rparr>), zero_rng)"
proof -
  have spaced: "st_spaced typed_session"
    by (simp add: typed_session_def)
  note t = spaced_restriction_relaxed [OF relaxed_step spaced]
  from relaxed_step spaced due_after_both_answers
    t [THEN conjunct1] t [THEN conjunct2, THEN conjunct1, symmetric]
  show ?thesis
    by (intro conjI)
qed

subsection \<open>Grading\<close>

text \<open>
  C9, as amended. In typed mode the answer is graded correct exactly when the submitted
  answer, with the white space at its ends removed, equals the target word after both are
  put in lower case; in multiple-choice mode exactly when the submitted option, with the
  white space at its ends removed, equals the target word. So for an answer without white
  space at its ends the grade is the case-insensitive, respectively exact, comparison with
  the target word. \<open>Question.check_answer\<close> strips the target word as well. The grade is
  what the answer step logs, counts and passes to the progress tracker.
\<close>

theorem grading_by_mode:
  "graded_correct ''typed'' form (Some cq) =
     (lower (strip (form_get form ''answer'' [])) = lower (cq_tgt_word cq)) \<and>
   graded_correct ''choice'' form (Some cq) =
     (strip (form_get form ''choice'' []) = cq_tgt_word cq) \<and>
   check_answer q a = (lower (strip a) = lower (strip (q_target_word q))) \<and>
   (form ''answer'' = Some a \<and> strip a = a \<longrightarrow>
      graded_correct ''typed'' form (Some cq) = (lower a = lower (cq_tgt_word cq))) \<and>
   (form ''choice'' = Some a \<and> strip a = a \<longrightarrow>
      graded_correct ''choice'' form (Some cq) = (a = cq_tgt_word cq)) \<and>
   (quiz_question_post t1 t2 g db uid s (Some st) (Some cq) form = Drawn db' st' r g' \<longrightarrow>
      st_answers st' =
        st_answers st @
          [\<lparr>ae_group_id = cq_group_id cq, ae_from_lang = cq_src_lang cq,
            ae_to_lang = cq_tgt_lang cq,
            ae_correct = graded_correct (st_mode st) form (Some cq)\<rparr>] \<and>
      st_total st' = st_total st + 1 \<and>
      st_score st' = st_score st + (if graded_correct (st_mode st) form (Some cq) then 1 else 0) \<and>
      (\<forall>u. uid = Some u \<and> u \<noteq> 0 \<longrightarrow>
         db' = update_user_progress t1 db u (cq_group_id cq)
                 (graded_correct (st_mode st) form (Some cq))))"
proof -
  have typed: "graded_correct ''typed'' form (Some cq) =
     (lower (strip (form_get form ''answer'' [])) = lower (cq_tgt_word cq))"
    by (simp add: graded_correct_def)
  have choice: "graded_correct ''choice'' form (Some cq) =
     (strip (form_get form ''choice'' []) = cq_tgt_word cq)"
    by (simp add: graded_correct_def)
  have check: "check_answer q a = (lower (strip a) = lower (strip (q_target_word q)))"
    by (simp add: check_answer_def)
  have typed': "form ''answer'' = Some a \<and> strip a = a \<longrightarrow>
      graded_correct ''typed'' form (Some cq) = (lower a = lower (cq_tgt_word cq))"
    unfolding typed by (simp add: form_get_def)
  have choice': "form ''choice'' = Some a \<and> strip a = a \<longrightarrow>
      graded_correct ''choice'' form (Some cq) = (a = cq_tgt_word cq)"
    unfolding choice by (simp add: form_get_def)
  have step: "st_answers st' =
        st_answers st @
          [\<lparr>ae_group_id = cq_group_id cq, ae_from_lang = cq_src_lang cq,
            ae_to_lang = cq_tgt_lang cq,
            ae_correct = graded_correct (st_mode st) form (Some cq)\<rparr>] \<and>
      st_total st' = st_total st + 1 \<and>
      st_score st' = st_score st + (if graded_correct (st_mode st) form (Some cq) then 1 else 0) \<and>
      (\<forall>u. uid = Some u \<and> u \<noteq> 0 \<longrightarrow>
         db' = update_user_progress t1 db u (cq_group_id cq)
                 (graded_correct (st_mode st) form (Some cq)))"
    if "quiz_question_post t1 t2 g db uid s (Some st) (Some cq) form = Drawn db' st' r g'"
    using quiz_question_post_Drawn [OF that] by simp
  then have step': "quiz_question_post t1 t2 g db uid s (Some st) (Some cq) form =
        Drawn db' st' r g' \<longrightarrow>
      st_answers st' =
        st_answers st @
          [\<lparr>ae_group_id = cq_group_id cq, ae_from_lang = cq_src_lang cq,
            ae_to_lang = cq_tgt_lang cq,
            ae_correct = graded_correct (st_mode st) form (Some cq)\<rparr>] \<and>
      st_total st' = st_total st + 1 \<and>
      st_score st' = st_score st + (if graded_correct (st_mode st) form (Some cq) then 1 else 0) \<and>
      (\<forall>u. uid = Some u \<and> u \<noteq> 0 \<longrightarrow>
         db' = update_user_progress t1 db u (cq_group_id cq)
                 (graded_correct (st_mode st) form (Some cq)))"
    by (rule impI)
  from typed choice check typed' choice' step' show ?thesis
    by (intro conjI)
qed

text \<open>
  The answer \<open>Dog\<close> for the target \<open>dog\<close>, typed, and the option \<open>dog\<close>, chosen, are graded
  correct; the step of the session above logs the grade, counts it and updates the progress
  of user 1.
\<close>

theorem grading_by_mode_witness:
  "([''answer'' \<mapsto> ''Dog''] ''answer'' = Some ''Dog'' \<and> strip ''Dog'' = ''Dog'') \<and>
   graded_correct ''typed'' [''answer'' \<mapsto> ''Dog''] (Some hund_question) =
     (lower ''Dog'' = lower (cq_tgt_word hund_question)) \<and>
   lower ''Dog'' = lower (cq_tgt_word hund_question) \<and>
   ([''choice'' \<mapsto> ''dog''] ''choice'' = Some ''dog'' \<and> strip ''dog'' = ''dog'') \<and>
   graded_correct ''choice'' [''choice'' \<mapsto> ''dog''] (Some hund_question) =
     (''dog'' = cq_tgt_word hund_question) \<and>
   ''dog'' = cq_tgt_word hund_question \<and>
   quiz_question_post 10 20 zero_rng scenario_db (Some 1) 1 (Some typed_session)
     (Some hund_question) [''answer'' \<mapsto> '' Dog ''] =
   Drawn (update_user_progress 10 scenario_db 1 1 True)
     (typed_session
        \<lparr>st_allowed_groups := Some [2], st_score := 1, st_total := 1,
          st_answers := [\<lparr>ae_group_id = 1, ae_from_lang = ''Swedish'',
                           ae_to_lang = ''English'', ae_correct = True\<rparr>]\<rparr>)
     (Inr (Some \<lparr>q_set_id = 1, q_group_id = 2, q_source_language = ''Swedish'',
                  q_source_word = ''katt'', q_target_language = ''English'',
                  q_target_word = ''cat''\<rparr>))
     zero_rng \<and>
   st_total
     (typed_session
        \<lparr>st_allowed_groups := Some [2], st_score := 1, st_total := 1,
          st_answers := [\<lparr>ae_group_id = 1, ae_from_lang = ''Swedish'',
                           ae_to_lang = ''English'', ae_correct = True\<rparr>]\<rparr>) =
     st_total typed_session + 1 \<and>
   graded_correct (st_mode typed_session) [''answer'' \<mapsto> '' Dog ''] (Some hund_question)"
proof -
  have tgt: "cq_tgt_word hund_question = ''dog''"
    by (simp add: hund_question_def)
  have h1: "[''answer'' \<mapsto> ''Dog''] ''answer'' = Some ''Dog'' \<and> strip ''Dog'' = ''Dog''"
    by (rule conjI, simp, code_simp)
  have h2: "[''choice'' \<mapsto> ''dog''] ''choice'' = Some ''dog'' \<and> strip ''dog'' = ''dog''"
    by (rule conjI, simp, code_simp)
  have low: "lower ''Dog'' = lower (cq_tgt_word hund_question)"
    unfolding tgt by code_simp
  have same: "''dog'' = cq_tgt_word hund_question"
    by (simp add: tgt)
  have graded: "graded_correct (st_mode typed_session) [''answer'' \<mapsto> '' Dog '']
      (Some hund_question)"
    using graded_Dog by (simp add: typed_session_def)
  note a = grading_by_mode [where form = "[''answer'' \<mapsto> ''Dog'']" and cq = hund_question
      and a = "''Dog''", THEN conjunct2, THEN conjunct2, THEN conjunct2, THEN conjunct1,
      THEN mp, OF h1]
  note b = grading_by_mode [where form = "[''choice'' \<mapsto> ''dog'']" and cq = hund_question
      and a = "''dog''", THEN conjunct2, THEN conjunct2, THEN conjunct2, THEN conjunct2,
      THEN conjunct1, THEN mp, OF h2]
  note c = grading_by_mode [where form = "[''answer'' \<mapsto> '' Dog '']" and cq = hund_question,
      THEN conjunct2, THEN conjunct2, THEN conjunct2, THEN conjunct2, THEN conjunct2,
      THEN mp, OF first_step, THEN conjunct2, THEN conjunct1]
  from h1 [THEN conjunct1] h1 [THEN conjunct2] a low
    h2 [THEN conjunct1] h2 [THEN conjunct2] b same first_step c graded
  show ?thesis
    by (intro conjI)
qed

text \<open>
  The claim as it stands fails for an answer with white space at an end: the answer
  \<open>dog\<close> after a space is graded correct in typed mode and in multiple-choice mode, though
  with the space it equals the target word \<open>dog\<close> neither exactly nor after both are put in
  lower case.
\<close>

theorem grading_by_mode_counterexample:
  "graded_correct ''typed'' [''answer'' \<mapsto> '' dog''] (Some hund_question) \<and>
   lower '' dog'' \<noteq> lower (cq_tgt_word hund_question) \<and>
   graded_correct ''choice'' [''choice'' \<mapsto> '' dog''] (Some hund_question) \<and>
   '' dog'' \<noteq> cq_tgt_word hund_question"
proof -
  have tgt: "cq_tgt_word hund_question = ''dog''"
    by (simp add: hund_question_def)
  have typed: "graded_correct ''typed'' [''answer'' \<mapsto> '' dog''] (Some hund_question)"
    by (simp add: graded_correct_def form_get_def tgt text_values)
  have choice: "graded_correct ''choice'' [''choice'' \<mapsto> '' dog''] (Some hund_question)"
    by (simp add: graded_correct_def form_get_def tgt text_values)
  have differ: "lower '' dog'' \<noteq> lower (cq_tgt_word hund_question)"
    unfolding tgt by (simp add: lower_def)
  have differ': "'' dog'' \<noteq> cq_tgt_word hund_question"
    unfolding tgt by simp
  from typed differ choice differ' show ?thesis
    by (intro conjI)
qed

end
